theory Spec2Isabelle
  imports Main "HOL-Library.Word"
begin

unbundle bit_operations_syntax

section \<open>kernel/arch/x86\_64/user.c: entering user mode, fatal halt, reboot, accessors\<close>

subsection \<open>Saved registers\<close>

text \<open>
  \<^verbatim>\<open>struct regs\<close> is declared in \<^verbatim>\<open>kernel/arch/x86_64/regs.h\<close>, which is not among the
  sources. Its members are taken from the code that uses them: \<^verbatim>\<open>arch_resume_user\<close> pops
  fifteen general-purpose registers in the order r15 .. rax, skips two words
  (\<^verbatim>\<open>add $16, %rsp\<close>: the interrupt number and the error code) and leaves the five words
  that \<^verbatim>\<open>iretq\<close> consumes (rip, cs, rflags, rsp, ss). Every member is a \<^verbatim>\<open>uintptr_t\<close>.
\<close>

type_synonym uintptr_t = "64 word"

record regs =
  r15 :: uintptr_t
  r14 :: uintptr_t
  r13 :: uintptr_t
  r12 :: uintptr_t
  r11 :: uintptr_t
  r10 :: uintptr_t
  r9 :: uintptr_t
  r8 :: uintptr_t
  rbp :: uintptr_t
  rdi :: uintptr_t
  rsi :: uintptr_t
  rdx :: uintptr_t
  rcx :: uintptr_t
  rbx :: uintptr_t
  rax :: uintptr_t
  int_no :: uintptr_t
  err_code :: uintptr_t
  rip :: uintptr_t
  cs :: uintptr_t
  rflags :: uintptr_t
  rsp :: uintptr_t
  ss :: uintptr_t

text \<open>A register set of zeros, for the concrete runs.\<close>

definition zero_regs :: regs where
  "zero_regs =
     \<lparr> r15 = 0, r14 = 0, r13 = 0, r12 = 0, r11 = 0, r10 = 0, r9 = 0, r8 = 0,
       rbp = 0, rdi = 0, rsi = 0, rdx = 0, rcx = 0, rbx = 0, rax = 0,
       int_no = 0, err_code = 0, rip = 0, cs = 0, rflags = 0, rsp = 0, ss = 0 \<rparr>"

subsection \<open>Syscall parameter accessors\<close>

text \<open>
  \<^verbatim>\<open>long\<close> and \<^verbatim>\<open>uintptr_t\<close> are both 64 bits wide; the conversions between them keep
  every bit, so both are \<^typ>\<open>64 word\<close> here. The setter writes through the pointer
  \<^verbatim>\<open>r\<close>: the model returns the structure after the call. The readers return a value
  and have no way to change the structure they read.
\<close>

definition arch_syscall_return :: "regs \<Rightarrow> 64 word \<Rightarrow> regs" where
  "arch_syscall_return r retval = r\<lparr>rax := retval\<rparr>"

definition arch_syscall_number :: "regs \<Rightarrow> 64 word" where
  "arch_syscall_number r = rax r"

definition arch_syscall_arg0 :: "regs \<Rightarrow> 64 word" where
  "arch_syscall_arg0 r = rbx r"

definition arch_syscall_arg1 :: "regs \<Rightarrow> 64 word" where
  "arch_syscall_arg1 r = rcx r"

definition arch_syscall_arg2 :: "regs \<Rightarrow> 64 word" where
  "arch_syscall_arg2 r = rdx r"

definition arch_syscall_arg3 :: "regs \<Rightarrow> 64 word" where
  "arch_syscall_arg3 r = rsi r"

definition arch_syscall_arg4 :: "regs \<Rightarrow> 64 word" where
  "arch_syscall_arg4 r = rdi r"

definition arch_stack_pointer :: "regs \<Rightarrow> 64 word" where
  "arch_stack_pointer r = rsp r"

definition arch_user_ip :: "regs \<Rightarrow> 64 word" where
  "arch_user_ip r = rip r"

subsection \<open>Entering user mode\<close>

text \<open>
  \<^verbatim>\<open>arch_enter_user\<close> and \<^verbatim>\<open>arch_enter_signal_handler\<close> fill five members of a local
  \<^verbatim>\<open>struct regs\<close>, push them in the order ss, rsp, rflags, cs, rip and execute
  \<^verbatim>\<open>iretq\<close> with the arguments in the registers named by the asm constraints
  (\<^verbatim>\<open>"D"\<close> rdi, \<^verbatim>\<open>"S"\<close> rsi, \<^verbatim>\<open>"d"\<close> rdx). The functions do not return; the model
  returns what \<^verbatim>\<open>iretq\<close> is given: the five frame words and the argument registers.
  An \<^verbatim>\<open>int\<close> argument is 32 bits wide; the \<^verbatim>\<open>"S"\<close> and \<^verbatim>\<open>"d"\<close> registers are set by
  \<^verbatim>\<open>arch_enter_user\<close> only.
\<close>

record user_entry =
  ret_ss :: uintptr_t
  ret_rsp :: uintptr_t
  ret_rflags :: uintptr_t
  ret_cs :: uintptr_t
  ret_rip :: uintptr_t
  arg_D :: "32 word"
  arg_S :: "64 word option"
  arg_d :: "64 word option"

definition arch_enter_user ::
  "uintptr_t \<Rightarrow> 32 word \<Rightarrow> 64 word \<Rightarrow> 64 word \<Rightarrow> uintptr_t \<Rightarrow> user_entry" where
  "arch_enter_user entrypoint argc argv envp stack =
     \<lparr> ret_ss = 0x20 OR 0x03,
       ret_rsp = stack,
       ret_rflags = push_bit 21 1 OR push_bit 9 1,
       ret_cs = 0x18 OR 0x03,
       ret_rip = entrypoint,
       arg_D = argc,
       arg_S = Some argv,
       arg_d = Some envp \<rparr>"

text \<open>
  \<^verbatim>\<open>arch_enter_signal_handler\<close> reads the stack pointer saved at the last trap entry
  through \<^verbatim>\<open>this_core->current_process->syscall_registers\<close> and stores one
  \<^verbatim>\<open>uintptr_t\<close> in memory. The pointer \<^verbatim>\<open>syscall_registers\<close> may be null: the model
  gives the dereference of a null pointer as a fault. Memory is byte-addressed; a
  64-bit store writes eight bytes, least significant first (x86-64 is little-endian),
  at addresses that wrap around at \<open>2^64\<close>.
\<close>

datatype fault = Null_dereference | Unreachable

record process =
  syscall_registers :: "regs option"

type_synonym memory = "64 word \<Rightarrow> 8 word"

fun store_bytes :: "memory \<Rightarrow> 64 word \<Rightarrow> 8 word list \<Rightarrow> memory" where
  "store_bytes m a [] = m"
| "store_bytes m a (b # bs) = store_bytes (m(a := b)) (a + 1) bs"

fun load_bytes :: "memory \<Rightarrow> 64 word \<Rightarrow> nat \<Rightarrow> 8 word list" where
  "load_bytes m a 0 = []"
| "load_bytes m a (Suc n) = m a # load_bytes m (a + 1) n"

fun le_bytes :: "nat \<Rightarrow> 64 word \<Rightarrow> 8 word list" where
  "le_bytes 0 v = []"
| "le_bytes (Suc n) v = ucast v # le_bytes n (drop_bit 8 v)"

fun le_word :: "8 word list \<Rightarrow> 64 word" where
  "le_word [] = 0"
| "le_word (b # bs) = ucast b OR push_bit 8 (le_word bs)"

definition store_u64 :: "memory \<Rightarrow> 64 word \<Rightarrow> 64 word \<Rightarrow> memory" where
  "store_u64 m a v = store_bytes m a (le_bytes 8 v)"

definition load_u64 :: "memory \<Rightarrow> 64 word \<Rightarrow> 64 word" where
  "load_u64 m a = le_word (load_bytes m a 8)"

definition arch_enter_signal_handler ::
  "process \<Rightarrow> memory \<Rightarrow> uintptr_t \<Rightarrow> 32 word \<Rightarrow> fault + (user_entry \<times> memory)" where
  "arch_enter_signal_handler current_process m entrypoint signum =
     (case syscall_registers current_process of
        None \<Rightarrow> Inl Null_dereference
      | Some r \<Rightarrow>
          let sp = (rsp r - 128 - 8) AND 0xFFFFFFFFFFFFFFF0;
              m' = store_u64 m sp 0x00000008DEADBEEF
          in Inr (\<lparr> ret_ss = 0x20 OR 0x03,
                     ret_rsp = sp,
                     ret_rflags = push_bit 21 1 OR push_bit 9 1,
                     ret_cs = 0x18 OR 0x03,
                     ret_rip = entrypoint,
                     arg_D = signum,
                     arg_S = None,
                     arg_d = None \<rparr>, m'))"

subsection \<open>Calls to the rest of the kernel and to the hardware\<close>

text \<open>
  Both files call functions that are declared in headers and defined elsewhere
  (\<^verbatim>\<open>inportb\<close>, \<^verbatim>\<open>outportb\<close>, \<^verbatim>\<open>switch_task\<close>, \<^verbatim>\<open>sleep_on\<close>, \<^verbatim>\<open>wakeup_queue\<close>,
  \<^verbatim>\<open>irq_ack\<close>, \<^verbatim>\<open>irq_install_handler\<close>, \<^verbatim>\<open>tty_input_process\<close>, \<^verbatim>\<open>pty_new\<close>,
  \<^verbatim>\<open>list_create\<close>, \<^verbatim>\<open>spawn_worker_thread\<close>, \<^verbatim>\<open>vfs_mount\<close>, \<^verbatim>\<open>lapic_send_ipi\<close>,
  \<^verbatim>\<open>mmu_allocate_a_frame\<close>, \<^verbatim>\<open>mmu_map_from_physical\<close>, \<^verbatim>\<open>memset\<close>) and execute
  \<^verbatim>\<open>lidt\<close>. Each such call is recorded, with its arguments, as an event of a trace, in
  the order in which the code makes the calls. What the hardware answers is a
  parameter: a \<open>platform\<close> gives the value of a port read and what a port write or a
  yield of the processor does to the devices, on a device state of any type \<open>'h\<close>.
  Pointers returned by the allocating calls are natural numbers; a null pointer is
  \<open>None\<close>. Function pointers are the names of the functions of serial.c.
\<close>

type_synonym ptr = nat

datatype callback =
  Serial_handler_ac | Serial_handler_bd | Process_serial | Serial_write_out | Serial_fill_name

datatype event =
    Inportb int "8 word"
  | Outportb int "8 word"
  | Switch_task int
  | Sleep_on "ptr option"
  | Wakeup_queue "ptr option"
  | Irq_ack int
  | Irq_install_handler int callback string
  | Tty_input_process "ptr option" "8 word"
  | Pty_new ptr
  | List_create string ptr
  | Spawn_worker_thread callback string "ptr option" ptr
  | Vfs_mount string ptr
  | Lapic_send_ipi int "32 word"
  | Mmu_allocate_a_frame "64 word"
  | Memset "64 word" int nat
  | Lidt "64 word"

record 'h platform =
  port_in :: "'h \<Rightarrow> int \<Rightarrow> 8 word \<times> 'h"
  port_out :: "'h \<Rightarrow> int \<Rightarrow> 8 word \<Rightarrow> 'h"
  yield :: "'h \<Rightarrow> 'h"

record 'h machine =
  hw :: 'h
  trace :: "event list"

definition call :: "event \<Rightarrow> ('h, 'z) machine_scheme \<Rightarrow> ('h, 'z) machine_scheme" where
  "call e s = s\<lparr>trace := trace s @ [e]\<rparr>"

definition inportb ::
  "'h platform \<Rightarrow> int \<Rightarrow> ('h, 'z) machine_scheme \<Rightarrow> 8 word \<times> ('h, 'z) machine_scheme" where
  "inportb io port s =
     (let (v, h) = port_in io (hw s) port in (v, call (Inportb port v) (s\<lparr>hw := h\<rparr>)))"

definition outportb ::
  "'h platform \<Rightarrow> int \<Rightarrow> 8 word \<Rightarrow> ('h, 'z) machine_scheme \<Rightarrow> ('h, 'z) machine_scheme" where
  "outportb io port v s = call (Outportb port v) (s\<lparr>hw := port_out io (hw s) port v\<rparr>)"

definition switch_task ::
  "'h platform \<Rightarrow> int \<Rightarrow> ('h, 'z) machine_scheme \<Rightarrow> ('h, 'z) machine_scheme" where
  "switch_task io reschedule s = call (Switch_task reschedule) (s\<lparr>hw := yield io (hw s)\<rparr>)"

subsection \<open>Stopping the other cores\<close>

text \<open>
  \<^verbatim>\<open>processor_count\<close>, \<^verbatim>\<open>processor_local_data\<close> and \<^verbatim>\<open>this_core\<close> are globals declared
  elsewhere; they are arguments here. Of \<^verbatim>\<open>struct ProcessorLocal\<close> the code reads
  \<^verbatim>\<open>cpu_id\<close> and \<^verbatim>\<open>lapic_id\<close>. The loop counter is an \<^verbatim>\<open>int\<close>; the array is read at
  indices \<open>0 \<le> i < processor_count\<close> only. The result is the trace with the calls
  of \<^verbatim>\<open>lapic_send_ipi\<close> appended.
\<close>

record processor_local =
  cpu_id :: int
  lapic_id :: int

function arch_fatal_prepare_loop ::
  "int \<Rightarrow> int \<Rightarrow> processor_local \<Rightarrow> processor_local list \<Rightarrow> event list \<Rightarrow> event list" where
  "arch_fatal_prepare_loop i processor_count this_core processor_local_data tr =
     (if i < processor_count then
        (if i = cpu_id this_core
         then arch_fatal_prepare_loop (i + 1) processor_count this_core processor_local_data tr
         else arch_fatal_prepare_loop (i + 1) processor_count this_core processor_local_data
                (tr @ [Lapic_send_ipi (lapic_id (processor_local_data ! nat i)) 0x447D]))
      else tr)"
  by pat_completeness auto
termination
  by (relation "measure (\<lambda>(i, processor_count, _). nat (processor_count - i))") auto

declare arch_fatal_prepare_loop.simps [simp del]

definition arch_fatal_prepare ::
  "int \<Rightarrow> processor_local \<Rightarrow> processor_local list \<Rightarrow> event list \<Rightarrow> event list" where
  "arch_fatal_prepare processor_count this_core processor_local_data tr =
     arch_fatal_prepare_loop 0 processor_count this_core processor_local_data tr"

subsection \<open>Reboot\<close>

text \<open>
  \<^verbatim>\<open>arch_reboot\<close> loads an empty interrupt descriptor table, reads the keyboard
  controller's status port 0x64 until bit 1 of the value read is clear, writes the reset
  command 0xFE to the same port and returns 0. The wait loop has no bound: where the
  status never shows the bit clear the function does not return, which is the value
  \<open>None\<close>. The frame number returned by \<^verbatim>\<open>mmu_allocate_a_frame\<close> and the mapping
  \<^verbatim>\<open>mmu_map_from_physical\<close> are arguments. The model follows the code as far as it is
  executed when the write of the reset command does not restart the machine.
\<close>

partial_function (option) arch_reboot_wait ::
  "'h platform \<Rightarrow> 8 word \<Rightarrow> ('h, 'z) machine_scheme \<Rightarrow> ('h, 'z) machine_scheme option" where
  "arch_reboot_wait io out s =
     (if out AND 0x02 \<noteq> 0
      then (let (v, s1) = inportb io 0x64 s in arch_reboot_wait io v s1)
      else Some s)"

declare arch_reboot_wait.simps [code]

definition arch_reboot ::
  "'h platform \<Rightarrow> 64 word \<Rightarrow> (64 word \<Rightarrow> 64 word) \<Rightarrow> ('h, 'z) machine_scheme
   \<Rightarrow> (64 word \<times> ('h, 'z) machine_scheme) option" where
  "arch_reboot io frame mmu_map_from_physical s =
     (let s1 = call (Mmu_allocate_a_frame frame) s;
          idt = mmu_map_from_physical (push_bit 12 frame);
          s2 = call (Memset idt 0 0x1000) s1;
          s3 = call (Lidt idt) s2
      in case arch_reboot_wait io 0x02 s3 of
           None \<Rightarrow> None
         | Some s4 \<Rightarrow> Some (0, outportb io 0x64 0xFE s4))"

text \<open>
  What the keyboard controller shows over time: \<open>kbd_reads io n h\<close> is the device state
  after \<open>n\<close> reads of port 0x64 from \<open>h\<close>, and \<open>kbd_ready_at io n h\<close> says that the
  read after those \<open>n\<close> shows bit 1 (input buffer full) clear.
\<close>

fun kbd_reads :: "'h platform \<Rightarrow> nat \<Rightarrow> 'h \<Rightarrow> 'h" where
  "kbd_reads io 0 h = h"
| "kbd_reads io (Suc n) h = kbd_reads io n (snd (port_in io h 0x64))"

definition kbd_ready_at :: "'h platform \<Rightarrow> nat \<Rightarrow> 'h \<Rightarrow> bool" where
  "kbd_ready_at io n h = (fst (port_in io (kbd_reads io n h) 0x64) AND 0x02 = 0)"

section \<open>kernel/arch/x86\_64/serial.c: the serial port driver\<close>

subsection \<open>Constants and globals\<close>

definition SERIAL_PORT_A :: int where "SERIAL_PORT_A = 0x3F8"
definition SERIAL_PORT_B :: int where "SERIAL_PORT_B = 0x2F8"
definition SERIAL_PORT_C :: int where "SERIAL_PORT_C = 0x3E8"
definition SERIAL_PORT_D :: int where "SERIAL_PORT_D = 0x2E8"

definition SERIAL_IRQ_AC :: int where "SERIAL_IRQ_AC = 4"
definition SERIAL_IRQ_BD :: int where "SERIAL_IRQ_BD = 3"

text \<open>
  Of a \<^verbatim>\<open>pty_t\<close> the driver writes two callback slots and, through \<^verbatim>\<open>pty->slave\<close>, the
  group and the mode of the device node; \<open>None\<close> is a member this file has not
  written. The file's static variables are the fields of the state; the objects that
  \<^verbatim>\<open>pty_new\<close> returns live in \<open>ptys\<close>, and \<open>next_ptr\<close> is the next pointer an
  allocating call returns, so that two allocations never return the same pointer.
\<close>

record pty_fields =
  write_out :: "callback option"
  fill_name :: "callback option"
  slave_gid :: "int option"
  slave_mask :: "int option"

record 'h serial = "'h machine" +
  serial_port_pty_a :: "ptr option"
  serial_port_pty_b :: "ptr option"
  serial_port_pty_c :: "ptr option"
  serial_port_pty_d :: "ptr option"
  sem_serial_ac :: "ptr option"
  sem_serial_bd :: "ptr option"
  serial_ac_handler :: "ptr option"
  serial_bd_handler :: "ptr option"
  have_installed_ac :: int
  have_installed_bd :: int
  ptys :: "ptr \<Rightarrow> pty_fields option"
  next_ptr :: ptr

text \<open>
  \<^verbatim>\<open>pty_for_port\<close> returns the address of one of the four static pointers; a port that
  matches no case of the switch falls through to \<^verbatim>\<open>__builtin_unreachable()\<close>, whose
  execution is undefined: the fault \<open>Unreachable\<close>.
\<close>

datatype pty_slot = Slot_a | Slot_b | Slot_c | Slot_d

definition pty_for_port :: "int \<Rightarrow> fault + pty_slot" where
  "pty_for_port port =
     (if port = SERIAL_PORT_A then Inr Slot_a
      else if port = SERIAL_PORT_B then Inr Slot_b
      else if port = SERIAL_PORT_C then Inr Slot_c
      else if port = SERIAL_PORT_D then Inr Slot_d
      else Inl Unreachable)"

fun load_slot :: "pty_slot \<Rightarrow> 'h serial \<Rightarrow> ptr option" where
  "load_slot Slot_a s = serial_port_pty_a s"
| "load_slot Slot_b s = serial_port_pty_b s"
| "load_slot Slot_c s = serial_port_pty_c s"
| "load_slot Slot_d s = serial_port_pty_d s"

fun store_slot :: "pty_slot \<Rightarrow> ptr option \<Rightarrow> 'h serial \<Rightarrow> 'h serial" where
  "store_slot Slot_a p s = s\<lparr>serial_port_pty_a := p\<rparr>"
| "store_slot Slot_b p s = s\<lparr>serial_port_pty_b := p\<rparr>"
| "store_slot Slot_c p s = s\<lparr>serial_port_pty_c := p\<rparr>"
| "store_slot Slot_d p s = s\<lparr>serial_port_pty_d := p\<rparr>"

subsection \<open>Receiving\<close>

text \<open>
  \<^verbatim>\<open>serial_recv\<close> polls the line status register (offset 5, bit 0) and yields between
  two polls, without a bound: where the bit never shows, the call does not return
  (\<open>None\<close>).
\<close>

definition serial_rcvd ::
  "'h platform \<Rightarrow> int \<Rightarrow> ('h, 'z) machine_scheme \<Rightarrow> int \<times> ('h, 'z) machine_scheme" where
  "serial_rcvd io device s =
     (let (v, s1) = inportb io (device + 5) s in (uint (v AND 1), s1))"

partial_function (option) serial_recv ::
  "'h platform \<Rightarrow> int \<Rightarrow> ('h, 'z) machine_scheme \<Rightarrow> (8 word \<times> ('h, 'z) machine_scheme) option"
  where
  "serial_recv io device s =
     (let (r, s1) = serial_rcvd io device s
      in if r = 0 then serial_recv io device (switch_task io 1 s1)
         else Some (inportb io device s1))"

declare serial_recv.simps [code]

subsection \<open>The worker\<close>

text \<open>
  \<^verbatim>\<open>process_serial\<close> computes \<^verbatim>\<open>portBase\<close> once, from its argument, and then loops
  forever. One iteration of \<^verbatim>\<open>while (1)\<close> is \<open>process_serial_iteration\<close>: the worker
  calls \<^verbatim>\<open>sleep_on\<close>, is woken, chooses a port from one read of \<^verbatim>\<open>portBase + 1\<close> and
  runs the \<^verbatim>\<open>do ... while (next)\<close> loop, \<open>process_serial_loop\<close>. The value
  \<open>Some (Inr s')\<close> is an iteration that has come to its end, so that the worker is at
  \<^verbatim>\<open>sleep_on\<close> again (suspended); \<open>Some (Inl f)\<close> is an iteration that has run into a
  fault; \<open>None\<close> is an iteration that never ends.
\<close>

definition tty_input_process :: "ptr option \<Rightarrow> 8 word \<Rightarrow> 'h serial \<Rightarrow> 'h serial" where
  "tty_input_process pty ch s = call (Tty_input_process pty ch) s"

partial_function (option) process_serial_loop ::
  "'h platform \<Rightarrow> int \<Rightarrow> 'h serial \<Rightarrow> (fault + 'h serial) option" where
  "process_serial_loop io port s =
     Option.bind (serial_recv io port s) (\<lambda>(ch, s1).
       case pty_for_port port of
         Inl f \<Rightarrow> Some (Inl f)
       | Inr slot \<Rightarrow>
           (let pty = load_slot slot s1;
                s2 = tty_input_process pty ch s1;
                (next, s3) = serial_rcvd io port s2
            in if next \<noteq> 0 then process_serial_loop io port (switch_task io 1 s3)
               else Some (Inr s3)))"

declare process_serial_loop.simps [code]

definition process_serial_portBase :: "ptr option \<Rightarrow> 'h serial \<Rightarrow> int" where
  "process_serial_portBase argp s =
     (if argp = sem_serial_ac s then SERIAL_PORT_A else SERIAL_PORT_B)"

definition process_serial_iteration ::
  "'h platform \<Rightarrow> ptr option \<Rightarrow> int \<Rightarrow> 'h serial \<Rightarrow> (fault + 'h serial) option" where
  "process_serial_iteration io argp portBase s =
     (let s0 = call (Sleep_on argp) s;
          (v, s1) = inportb io (portBase + 1) s0;
          port = (if v AND 0x01 \<noteq> 0 then portBase else portBase - 0x100)
      in process_serial_loop io port s1)"

text \<open>
  \<open>process_serial_port io portBase s\<close> is the value that the variable \<^verbatim>\<open>port\<close> takes in
  the iteration that starts in the state \<open>s\<close>: \<^verbatim>\<open>portBase\<close> or \<^verbatim>\<open>portBase - 0x100\<close>,
  as the \<^verbatim>\<open>if\<close> of the loop body decides on the value read from \<^verbatim>\<open>portBase + 1\<close>.
\<close>

definition process_serial_port :: "'h platform \<Rightarrow> int \<Rightarrow> ('h, 'z) machine_scheme \<Rightarrow> int" where
  "process_serial_port io portBase s =
     (if fst (port_in io (hw s) (portBase + 1)) AND 0x01 \<noteq> 0 then portBase
      else portBase - 0x100)"

subsection \<open>The interrupt handlers\<close>

definition irq_ack :: "int \<Rightarrow> 'h serial \<Rightarrow> 'h serial" where
  "irq_ack irq s = call (Irq_ack irq) s"

definition wakeup_queue :: "ptr option \<Rightarrow> 'h serial \<Rightarrow> 'h serial" where
  "wakeup_queue q s = call (Wakeup_queue q) s"

definition serial_handler_ac :: "regs \<Rightarrow> 'h serial \<Rightarrow> int \<times> 'h serial" where
  "serial_handler_ac r s =
     (let s1 = irq_ack SERIAL_IRQ_AC s;
          s2 = wakeup_queue (sem_serial_ac s1) s1
      in (1, s2))"

definition serial_handler_bd :: "regs \<Rightarrow> 'h serial \<Rightarrow> int \<times> 'h serial" where
  "serial_handler_bd r s =
     (let s1 = irq_ack SERIAL_IRQ_BD s;
          s2 = wakeup_queue (sem_serial_bd s1) s1
      in (1, s2))"

subsection \<open>Bringing a port up\<close>

definition serial_enable :: "'h platform \<Rightarrow> int \<Rightarrow> 'h serial \<Rightarrow> 'h serial" where
  "serial_enable io port s =
     (let s1 = outportb io (port + 1) 0x00 s;
          s2 = outportb io (port + 3) 0x80 s1;
          s3 = outportb io (port + 0) 0x01 s2;
          s4 = outportb io (port + 1) 0x00 s3;
          s5 = outportb io (port + 3) 0x03 s4;
          s6 = outportb io (port + 2) 0xC7 s5;
          s7 = outportb io (port + 4) 0x0B s6;
          s8 = outportb io (port + 1) 0x01 s7
      in s8)"

definition pty_new :: "'h serial \<Rightarrow> ptr \<times> 'h serial" where
  "pty_new s =
     (let p = next_ptr s
      in (p, call (Pty_new p)
               (s\<lparr>next_ptr := p + 1,
                  ptys := (ptys s)(p \<mapsto> \<lparr> write_out = None, fill_name = None,
                                            slave_gid = None, slave_mask = None \<rparr>)\<rparr>)))"

definition update_pty :: "ptr \<Rightarrow> (pty_fields \<Rightarrow> pty_fields) \<Rightarrow> 'h serial \<Rightarrow> 'h serial" where
  "update_pty p f s = s\<lparr>ptys := (ptys s)(p := map_option f (ptys s p))\<rparr>"

definition irq_install_handler :: "int \<Rightarrow> callback \<Rightarrow> string \<Rightarrow> 'h serial \<Rightarrow> 'h serial" where
  "irq_install_handler irq handler desc s = call (Irq_install_handler irq handler desc) s"

text \<open>
  \<^verbatim>\<open>serial_device_create\<close> returns \<^verbatim>\<open>pty->slave\<close>, the device node of the new pty; the
  node is named by the pointer of its pty. The mode \<^verbatim>\<open>0660\<close> is an octal literal.
\<close>

definition serial_device_create ::
  "'h platform \<Rightarrow> int \<Rightarrow> 'h serial \<Rightarrow> fault + (ptr \<times> 'h serial)" where
  "serial_device_create io port s =
     (let (pty, s1) = pty_new s
      in case pty_for_port port of
           Inl f \<Rightarrow> Inl f
         | Inr slot \<Rightarrow>
             (let s2 = store_slot slot (Some pty) s1;
                  s3 = update_pty pty (\<lambda>p. p\<lparr>write_out := Some Serial_write_out\<rparr>) s2;
                  s4 = update_pty pty (\<lambda>p. p\<lparr>fill_name := Some Serial_fill_name\<rparr>) s3;
                  s5 = serial_enable io port s4;
                  s6 = (if port = SERIAL_PORT_A \<or> port = SERIAL_PORT_C then
                          (if have_installed_ac s5 = 0
                           then (irq_install_handler SERIAL_IRQ_AC Serial_handler_ac
                                   ''serial ac'' s5)\<lparr>have_installed_ac := 1\<rparr>
                           else s5)
                        else
                          (if have_installed_bd s5 = 0
                           then (irq_install_handler SERIAL_IRQ_BD Serial_handler_bd
                                   ''serial bd'' s5)\<lparr>have_installed_bd := 1\<rparr>
                           else s5));
                  s7 = update_pty pty (\<lambda>p. p\<lparr>slave_gid := Some 2\<rparr>) s6;
                  s8 = update_pty pty (\<lambda>p. p\<lparr>slave_mask := Some (6 * 64 + 6 * 8)\<rparr>) s7
              in Inr (pty, s8)))"

subsection \<open>Initialisation\<close>

definition list_create :: "string \<Rightarrow> 'h serial \<Rightarrow> ptr \<times> 'h serial" where
  "list_create name s =
     (let p = next_ptr s in (p, call (List_create name p) (s\<lparr>next_ptr := p + 1\<rparr>)))"

definition spawn_worker_thread ::
  "callback \<Rightarrow> string \<Rightarrow> ptr option \<Rightarrow> 'h serial \<Rightarrow> ptr \<times> 'h serial" where
  "spawn_worker_thread entrypoint name argp s =
     (let p = next_ptr s
      in (p, call (Spawn_worker_thread entrypoint name argp p) (s\<lparr>next_ptr := p + 1\<rparr>)))"

definition vfs_mount :: "string \<Rightarrow> ptr \<Rightarrow> 'h serial \<Rightarrow> 'h serial" where
  "vfs_mount path node s = call (Vfs_mount path node) s"

definition create_and_mount ::
  "'h platform \<Rightarrow> int \<Rightarrow> string \<Rightarrow> 'h serial \<Rightarrow> fault + 'h serial" where
  "create_and_mount io port path s =
     (case serial_device_create io port s of
        Inl f \<Rightarrow> Inl f
      | Inr (node, s1) \<Rightarrow> Inr (vfs_mount path node s1))"

definition serial_initialize :: "'h platform \<Rightarrow> 'h serial \<Rightarrow> fault + 'h serial" where
  "serial_initialize io s =
     (let (q_ac, s1) = list_create ''serial ac semaphore'' s;
          s2 = s1\<lparr>sem_serial_ac := Some q_ac\<rparr>;
          (q_bd, s3) = list_create ''serial bd semaphore'' s2;
          s4 = s3\<lparr>sem_serial_bd := Some q_bd\<rparr>;
          (w_ac, s5) = spawn_worker_thread Process_serial ''[serial ac]'' (sem_serial_ac s4) s4;
          s6 = s5\<lparr>serial_ac_handler := Some w_ac\<rparr>;
          (w_bd, s7) = spawn_worker_thread Process_serial ''[serial bd]'' (sem_serial_bd s6) s6;
          s8 = s7\<lparr>serial_bd_handler := Some w_bd\<rparr>
      in case create_and_mount io SERIAL_PORT_A ''/dev/ttyS0'' s8 of
           Inl f \<Rightarrow> Inl f
         | Inr s9 \<Rightarrow>
        (case create_and_mount io SERIAL_PORT_B ''/dev/ttyS1'' s9 of
           Inl f \<Rightarrow> Inl f
         | Inr s10 \<Rightarrow>
        (case create_and_mount io SERIAL_PORT_C ''/dev/ttyS2'' s10 of
           Inl f \<Rightarrow> Inl f
         | Inr s11 \<Rightarrow> create_and_mount io SERIAL_PORT_D ''/dev/ttyS3'' s11)))"

subsection \<open>An interrupt and the iteration of the worker that it starts\<close>

text \<open>
  \<open>interrupt_ac\<close> is what follows an interrupt on line 4: the handler runs, and the worker
  that \<^verbatim>\<open>serial_initialize\<close> has started with the argument \<^verbatim>\<open>sem_serial_ac\<close>, asleep
  on that queue, runs one iteration of its loop; \<open>interrupt_bd\<close> is the same for line 3.
  \<open>tty_inputs\<close> reads the calls of \<^verbatim>\<open>tty_input_process\<close> off a trace, in order, each
  with its endpoint and its byte.
\<close>

fun tty_inputs :: "event list \<Rightarrow> (ptr option \<times> 8 word) list" where
  "tty_inputs [] = []"
| "tty_inputs (Tty_input_process pty ch # tr) = (pty, ch) # tty_inputs tr"
| "tty_inputs (e # tr) = tty_inputs tr"

definition interrupt_ac :: "'h platform \<Rightarrow> 'h serial \<Rightarrow> (fault + 'h serial) option" where
  "interrupt_ac io s =
     (let (r, s1) = serial_handler_ac zero_regs s
      in process_serial_iteration io (sem_serial_ac s1)
           (process_serial_portBase (sem_serial_ac s1) s1) s1)"

definition interrupt_bd :: "'h platform \<Rightarrow> 'h serial \<Rightarrow> (fault + 'h serial) option" where
  "interrupt_bd io s =
     (let (r, s1) = serial_handler_bd zero_regs s
      in process_serial_iteration io (sem_serial_bd s1)
           (process_serial_portBase (sem_serial_bd s1) s1) s1)"

subsection \<open>Bringing several ports up, and counting registrations\<close>

text \<open>
  \<open>bring_up\<close> calls \<^verbatim>\<open>serial_device_create\<close> for the ports of a list, in order, as
  \<^verbatim>\<open>serial_initialize\<close> does for its four ports; \<open>installs irq tr\<close> is the number of calls
  of \<^verbatim>\<open>irq_install_handler\<close> for the line \<open>irq\<close> in a trace.
\<close>

fun bring_up :: "'h platform \<Rightarrow> int list \<Rightarrow> 'h serial \<Rightarrow> fault + 'h serial" where
  "bring_up io [] s = Inr s"
| "bring_up io (port # ports) s =
     (case serial_device_create io port s of
        Inl f \<Rightarrow> Inl f
      | Inr (node, s1) \<Rightarrow> bring_up io ports s1)"

fun is_install :: "int \<Rightarrow> event \<Rightarrow> bool" where
  "is_install irq (Irq_install_handler i h d) = (i = irq)"
| "is_install irq _ = False"

definition installs :: "int \<Rightarrow> event list \<Rightarrow> nat" where
  "installs irq tr = length (filter (is_install irq) tr)"

section \<open>A device model for concrete runs\<close>

text \<open>
  The theorems below that hold of every platform need no device model. The concrete
  runs use this one: four 16550-style serial ports at the bases 0x3F8, 0x2F8, 0x3E8 and
  0x2E8, each with a receive queue, an interrupt enable register (offset 1, while the
  divisor latch access bit of the line control register is clear), a line control
  register (offset 3) and a line status register (offset 5: bit 0 is set while the
  receive queue is not empty, bits 5 and 6 say that the transmitter is idle); and a
  keyboard controller whose status is read at port 0x64. A read of a port with no
  device behind it gives 0xFF. A yield changes no device.
\<close>

record mock_hw =
  rx_fifo :: "int \<Rightarrow> 8 word list"
  ier :: "int \<Rightarrow> 8 word"
  lcr :: "int \<Rightarrow> 8 word"
  kbd_status :: "8 word"

definition uart_bases :: "int list" where
  "uart_bases = [0x3F8, 0x2F8, 0x3E8, 0x2E8]"

definition mock_in :: "mock_hw \<Rightarrow> int \<Rightarrow> 8 word \<times> mock_hw" where
  "mock_in h p =
     (if p = 0x64 then (kbd_status h, h)
      else
        (let reg = p mod 8; base = p - reg
         in if base \<notin> set uart_bases then (0xFF, h)
            else if reg = 0 \<and> \<not> bit (lcr h base) 7 then
              (case rx_fifo h base of
                 [] \<Rightarrow> (0, h)
               | b # bs \<Rightarrow> (b, h\<lparr>rx_fifo := (rx_fifo h)(base := bs)\<rparr>))
            else if reg = 1 \<and> \<not> bit (lcr h base) 7 then (ier h base, h)
            else if reg = 3 then (lcr h base, h)
            else if reg = 5 then ((if rx_fifo h base = [] then 0x60 else 0x61), h)
            else (0, h)))"

definition mock_out :: "mock_hw \<Rightarrow> int \<Rightarrow> 8 word \<Rightarrow> mock_hw" where
  "mock_out h p v =
     (if p = 0x64 then h
      else
        (let reg = p mod 8; base = p - reg
         in if base \<notin> set uart_bases then h
            else if reg = 1 \<and> \<not> bit (lcr h base) 7 then h\<lparr>ier := (ier h)(base := v)\<rparr>
            else if reg = 3 then h\<lparr>lcr := (lcr h)(base := v)\<rparr>
            else h))"

definition mock :: "mock_hw platform" where
  "mock = \<lparr> port_in = mock_in, port_out = mock_out, yield = (\<lambda>h. h) \<rparr>"

definition power_on :: "mock_hw" where
  "power_on = \<lparr> rx_fifo = (\<lambda>_. []), ier = (\<lambda>_. 0), lcr = (\<lambda>_. 0), kbd_status = 0 \<rparr>"

definition receive :: "int \<Rightarrow> 8 word \<Rightarrow> mock_hw \<Rightarrow> mock_hw" where
  "receive base b h = h\<lparr>rx_fifo := (rx_fifo h)(base := rx_fifo h base @ [b])\<rparr>"

definition on_hw :: "('h \<Rightarrow> 'h) \<Rightarrow> ('h, 'z) machine_scheme \<Rightarrow> ('h, 'z) machine_scheme" where
  "on_hw f s = s\<lparr>hw := f (hw s)\<rparr>"

definition boot :: "'h \<Rightarrow> 'h serial" where
  "boot h =
     \<lparr> hw = h, trace = [],
       serial_port_pty_a = None, serial_port_pty_b = None,
       serial_port_pty_c = None, serial_port_pty_d = None,
       sem_serial_ac = None, sem_serial_bd = None,
       serial_ac_handler = None, serial_bd_handler = None,
       have_installed_ac = 0, have_installed_bd = 0,
       ptys = (\<lambda>_. None), next_ptr = 1 \<rparr>"

definition trapped_at :: "64 word \<Rightarrow> process" where
  "trapped_at sp = \<lparr> syscall_registers = Some (zero_regs\<lparr>rsp := sp\<rparr>) \<rparr>"

definition four_cores :: "processor_local list" where
  "four_cores = [\<lparr>cpu_id = 0, lapic_id = 0\<rparr>, \<lparr>cpu_id = 1, lapic_id = 2\<rparr>,
                 \<lparr>cpu_id = 2, lapic_id = 4\<rparr>, \<lparr>cpu_id = 3, lapic_id = 6\<rparr>]"

definition kbd_busy :: mock_hw where
  "kbd_busy = power_on\<lparr>kbd_status := 0x02\<rparr>"

text \<open>
  On the device model, draining a receive queue that holds the bytes \<open>bs\<close> shows as the
  events \<open>drain_events port pty bs\<close>: for each byte a read of the line status, the read
  of the byte, its delivery to the endpoint and a second read of the line status,
  followed by a yield where the queue is not yet empty.
\<close>

fun drain_events :: "int \<Rightarrow> ptr option \<Rightarrow> 8 word list \<Rightarrow> event list" where
  "drain_events port pty [] = []"
| "drain_events port pty [b] =
     [Inportb (port + 5) 0x61, Inportb port b, Tty_input_process pty b,
      Inportb (port + 5) 0x60]"
| "drain_events port pty (b # b' # bs) =
     [Inportb (port + 5) 0x61, Inportb port b, Tty_input_process pty b,
      Inportb (port + 5) 0x61, Switch_task 1] @ drain_events port pty (b' # bs)"

text \<open>
  The states of the concrete runs: \<open>initialised\<close> is the driver after
  \<^verbatim>\<open>serial_initialize\<close> on the device model at power-on; in \<open>only_c_pending\<close> one byte
  has arrived at port C; in \<open>both_pending\<close> the byte 0x43 has arrived at port C and the
  bytes 0x41 and 0x42 at port A; in \<open>ier_b_clear\<close> the interrupt enable register of port
  B reads 0.
\<close>

definition initialised :: "mock_hw serial" where
  "initialised =
     (case serial_initialize mock (boot power_on) of Inr s \<Rightarrow> s | Inl f \<Rightarrow> boot power_on)"

definition both_pending :: "mock_hw serial" where
  "both_pending =
     on_hw (receive SERIAL_PORT_A 0x42)
       (on_hw (receive SERIAL_PORT_A 0x41) (on_hw (receive SERIAL_PORT_C 0x43) initialised))"

definition only_c_pending :: "mock_hw serial" where
  "only_c_pending = on_hw (receive SERIAL_PORT_C 0x41) initialised"

definition ier_b_clear :: "mock_hw serial" where
  "ier_b_clear = on_hw (\<lambda>h. h\<lparr>ier := (ier h)(SERIAL_PORT_B := 0)\<rparr>) initialised"

section \<open>Theorems about user.c\<close>

subsection \<open>Entering user mode\<close>

text \<open>
  C3. For every entry point, argument count, argument vector, environment vector and
  stack, the frame that \<^verbatim>\<open>arch_enter_user\<close> hands to \<^verbatim>\<open>iretq\<close> has a code selector and
  a stack selector whose requested privilege level (the two low bits) is 3, the
  instruction pointer equal to the entry point, the stack pointer equal to the stack,
  and a flags word in which the interrupt-enable bit (bit 9) and one further bit
  (bit 21) are set, and no other.
\<close>

theorem arch_enter_user_frame:
  "ret_cs (arch_enter_user entrypoint argc argv envp stack) AND 3 = 3
   \<and> ret_ss (arch_enter_user entrypoint argc argv envp stack) AND 3 = 3
   \<and> ret_rip (arch_enter_user entrypoint argc argv envp stack) = entrypoint
   \<and> ret_rsp (arch_enter_user entrypoint argc argv envp stack) = stack
   \<and> bit (ret_rflags (arch_enter_user entrypoint argc argv envp stack)) 9
   \<and> bit (ret_rflags (arch_enter_user entrypoint argc argv envp stack)) 21
   \<and> ret_rflags (arch_enter_user entrypoint argc argv envp stack) = 0x200200"
  by (simp add: arch_enter_user_def bit_simps)

subsection \<open>Memory: a 64-bit store followed by a 64-bit load\<close>

lemma store_bytes_other:
  "\<forall>i < length bs. a + of_nat i \<noteq> x \<Longrightarrow> store_bytes m a bs x = m x"
proof (induction bs arbitrary: m a)
  case Nil
  then show ?case by simp
next
  case (Cons b bs)
  have "\<forall>i<length bs. (a + 1) + of_nat i \<noteq> x"
  proof (intro allI impI)
    fix i assume "i < length bs"
    then have "a + of_nat (Suc i) \<noteq> x" using Cons.prems by auto
    then show "(a + 1) + of_nat i \<noteq> x" by (simp add: ac_simps)
  qed
  then have "store_bytes (m(a := b)) (a + 1) bs x = (m(a := b)) x"
    by (rule Cons.IH)
  moreover have "a \<noteq> x" using Cons.prems [rule_format, of 0] by simp
  ultimately show ?case by simp
qed

lemma load_store_bytes:
  "length bs \<le> 2 ^ 64 \<Longrightarrow> load_bytes (store_bytes m a bs) a (length bs) = bs"
proof (induction bs arbitrary: m a)
  case Nil
  then show ?case by simp
next
  case (Cons b bs)
  have ne: "\<forall>i<length bs. (a + 1) + of_nat i \<noteq> a"
  proof (intro allI impI)
    fix i assume i: "i < length bs"
    show "(a + 1) + of_nat i \<noteq> a"
    proof
      assume "(a + 1) + of_nat i = a"
      then have "(of_nat (Suc i) :: 64 word) = 0" by (simp add: add.assoc)
      moreover have "Suc i < 2 ^ 64" using i Cons.prems by simp
      ultimately show False
        using unat_of_nat [where 'a=64, of "Suc i"] by simp
    qed
  qed
  have "store_bytes (m(a := b)) (a + 1) bs a = (m(a := b)) a"
    using ne by (rule store_bytes_other)
  then show ?case using Cons by simp
qed

lemma le_word_le_bytes_take: "le_word (le_bytes n v) = take_bit (8 * n) v"
proof (induction n arbitrary: v)
  case 0
  then show ?case by simp
next
  case (Suc n)
  have "ucast (ucast v :: 8 word) OR push_bit 8 (take_bit (8 * n) (drop_bit 8 v))
        = take_bit (8 * Suc n) v" (is "?l = ?r")
  proof (rule bit_word_eqI)
    fix k assume "k < LENGTH(64)"
    then show "bit ?l k = bit ?r k"
      by (cases "k < 8") (auto simp add: bit_simps)
  qed
  then show ?case using Suc.IH [of "drop_bit 8 v"] by simp
qed

lemma le_word_le_bytes: "le_word (le_bytes 8 v) = v"
proof -
  have "take_bit (8 * 8) v = v" by (rule take_bit_word_eq_self) simp
  then show ?thesis by (simp only: le_word_le_bytes_take)
qed

lemma length_le_bytes: "length (le_bytes n v) = n"
  by (induction n arbitrary: v) simp_all

lemma load_store_u64: "load_u64 (store_u64 m a v) a = v"
proof -
  have "load_bytes (store_bytes m a (le_bytes 8 v)) a (length (le_bytes 8 v)) = le_bytes 8 v"
    by (rule load_store_bytes) (simp add: length_le_bytes)
  then show ?thesis
    by (simp only: load_u64_def store_u64_def length_le_bytes le_word_le_bytes)
qed

subsection \<open>The stack of a signal handler\<close>

lemma signal_sp_below:
  fixes sp :: "64 word"
  assumes "136 \<le> sp"
  shows "(sp - 128 - 8) AND 0xFFFFFFFFFFFFFFF0 < sp"
proof -
  have eq: "sp - 128 - 8 = sp - 136" by simp
  have a: "(sp - 136) AND 0xFFFFFFFFFFFFFFF0 \<le> sp - 136" by (rule word_and_le2)
  have "sp - 136 < sp" using assms by (simp add: word_less_nat_alt word_le_nat_alt unat_sub)
  then show ?thesis using a unfolding eq by simp
qed

lemma signal_sp_aligned:
  fixes x :: "64 word"
  shows "16 dvd unat (x AND 0xFFFFFFFFFFFFFFF0)"
proof -
  have c: "(0xFFFFFFFFFFFFFFF0 :: 64 word) AND mask 4 = 0"
    by (simp add: mask_eq_exp_minus_1)
  have "take_bit 4 (x AND 0xFFFFFFFFFFFFFFF0) = (x AND 0xFFFFFFFFFFFFFFF0) AND mask 4"
    by (rule take_bit_eq_mask)
  also have "\<dots> = x AND (0xFFFFFFFFFFFFFFF0 AND mask 4)"
    by (rule and.assoc)
  also have "\<dots> = 0" by (simp only: c and_zero_eq)
  finally have t: "take_bit 4 (x AND 0xFFFFFFFFFFFFFFF0) = 0" .
  have "unat (take_bit 4 (x AND 0xFFFFFFFFFFFFFFF0)) = take_bit 4 (unat (x AND 0xFFFFFFFFFFFFFFF0))"
    by (rule unsigned_take_bit_eq)
  then have "take_bit 4 (unat (x AND 0xFFFFFFFFFFFFFFF0)) = 0"
    by (simp only: t unsigned_0)
  then have "unat (x AND 0xFFFFFFFFFFFFFFF0) mod 2 ^ 4 = 0"
    by (simp only: take_bit_eq_mod)
  then show ?thesis by (simp add: dvd_eq_mod_eq_0)
qed

text \<open>
  C2, as amended. Where the current thread has a saved trap-entry register set whose
  stack pointer is at least 136, \<^verbatim>\<open>arch_enter_signal_handler\<close> enters the handler with
  a stack pointer that is a multiple of 16 and strictly below the saved stack pointer,
  and the eight bytes at that stack pointer hold the sentinel 0x00000008DEADBEEF.
\<close>

theorem signal_handler_stack:
  assumes "syscall_registers current_process = Some r" and "136 \<le> rsp r"
  shows "\<exists>e m'. arch_enter_signal_handler current_process m entrypoint signum = Inr (e, m')
           \<and> 16 dvd unat (ret_rsp e)
           \<and> ret_rsp e < rsp r
           \<and> load_u64 m' (ret_rsp e) = 0x00000008DEADBEEF"
  using assms signal_sp_below [of "rsp r"] signal_sp_aligned [of "rsp r - 128 - 8"]
  by (simp add: arch_enter_signal_handler_def Let_def load_store_u64)

theorem signal_handler_stack_witness:
  "136 \<le> rsp (zero_regs\<lparr>rsp := 0x7FFFFFFFE000\<rparr>) \<and>
   (\<exists>e m'. arch_enter_signal_handler (trapped_at 0x7FFFFFFFE000) (\<lambda>_. 0) 0x401000 2 = Inr (e, m')
           \<and> 16 dvd unat (ret_rsp e)
           \<and> ret_rsp e < rsp (zero_regs\<lparr>rsp := 0x7FFFFFFFE000\<rparr>)
           \<and> load_u64 m' (ret_rsp e) = 0x00000008DEADBEEF)"
proof -
  have h1: "syscall_registers (trapped_at 0x7FFFFFFFE000) = Some (zero_regs\<lparr>rsp := 0x7FFFFFFFE000\<rparr>)"
    by (simp add: trapped_at_def)
  have h2: "136 \<le> rsp (zero_regs\<lparr>rsp := 0x7FFFFFFFE000\<rparr>)"
    by simp
  show ?thesis
    using h2 signal_handler_stack [OF h1 h2] by blast
qed

text \<open>
  C2 as stated fails where the saved stack pointer is below 136: the subtraction wraps
  around. With the saved stack pointer 0x80 the handler's stack pointer is
  0xFFFFFFFFFFFFFFF0, which is not below 0x80.
\<close>

theorem signal_handler_stack_counterexample:
  "map_sum id (\<lambda>(e, m'). (ret_rsp e, ret_rsp e < 0x80))
     (arch_enter_signal_handler (trapped_at 0x80) (\<lambda>_. 0) 0x401000 2)
   = Inr (0xFFFFFFFFFFFFFFF0, False)"
  by (simp add: arch_enter_signal_handler_def trapped_at_def Let_def)

subsection \<open>The accessors\<close>

text \<open>
  C9. \<^verbatim>\<open>arch_syscall_return\<close> sets the member rax to the value given and leaves each of
  the other twenty-one members as it was; each reader returns its member: the syscall
  number is rax, the arguments 0 to 4 are rbx, rcx, rdx, rsi and rdi, the stack pointer
  is rsp and the user instruction pointer is rip. A reader is a function of the
  structure to a value, so it changes nothing.
\<close>

theorem syscall_accessors:
  "rax (arch_syscall_return r v) = v
   \<and> r15 (arch_syscall_return r v) = r15 r \<and> r14 (arch_syscall_return r v) = r14 r
   \<and> r13 (arch_syscall_return r v) = r13 r \<and> r12 (arch_syscall_return r v) = r12 r
   \<and> r11 (arch_syscall_return r v) = r11 r \<and> r10 (arch_syscall_return r v) = r10 r
   \<and> r9 (arch_syscall_return r v) = r9 r \<and> r8 (arch_syscall_return r v) = r8 r
   \<and> rbp (arch_syscall_return r v) = rbp r \<and> rdi (arch_syscall_return r v) = rdi r
   \<and> rsi (arch_syscall_return r v) = rsi r \<and> rdx (arch_syscall_return r v) = rdx r
   \<and> rcx (arch_syscall_return r v) = rcx r \<and> rbx (arch_syscall_return r v) = rbx r
   \<and> int_no (arch_syscall_return r v) = int_no r
   \<and> err_code (arch_syscall_return r v) = err_code r
   \<and> rip (arch_syscall_return r v) = rip r \<and> cs (arch_syscall_return r v) = cs r
   \<and> rflags (arch_syscall_return r v) = rflags r \<and> rsp (arch_syscall_return r v) = rsp r
   \<and> ss (arch_syscall_return r v) = ss r
   \<and> arch_syscall_number r = rax r
   \<and> arch_syscall_arg0 r = rbx r \<and> arch_syscall_arg1 r = rcx r
   \<and> arch_syscall_arg2 r = rdx r \<and> arch_syscall_arg3 r = rsi r
   \<and> arch_syscall_arg4 r = rdi r
   \<and> arch_stack_pointer r = rsp r \<and> arch_user_ip r = rip r"
  by (simp add: arch_syscall_return_def arch_syscall_number_def arch_syscall_arg0_def
      arch_syscall_arg1_def arch_syscall_arg2_def arch_syscall_arg3_def arch_syscall_arg4_def
      arch_stack_pointer_def arch_user_ip_def)

subsection \<open>Stopping the other cores\<close>

lemma arch_fatal_prepare_loop_eq:
  "arch_fatal_prepare_loop i n tc pld tr =
     tr @ map (\<lambda>k. Lapic_send_ipi (lapic_id (pld ! nat k)) 0x447D)
            (filter (\<lambda>k. k \<noteq> cpu_id tc) [i..n - 1])"
proof (induction i n tc pld tr rule: arch_fatal_prepare_loop.induct)
  case (1 i n tc pld tr)
  show ?case
  proof (cases "i < n")
    case False
    then show ?thesis by (simp add: arch_fatal_prepare_loop.simps [of i])
  next
    case True
    then have u: "[i..n - 1] = i # [i + 1..n - 1]" by (simp add: upto_rec1)
    show ?thesis
    proof (cases "i = cpu_id tc")
      case True
      then have c: "cpu_id tc = i" by simp
      have "arch_fatal_prepare_loop i n tc pld tr = arch_fatal_prepare_loop (i + 1) n tc pld tr"
        using True \<open>i < n\<close> by (subst arch_fatal_prepare_loop.simps) simp
      also have "\<dots> = tr @ map (\<lambda>k. Lapic_send_ipi (lapic_id (pld ! nat k)) 0x447D)
                            (filter (\<lambda>k. k \<noteq> cpu_id tc) [i + 1..n - 1])"
        using True \<open>i < n\<close> by (rule "1.IH"(1) [rotated])
      finally show ?thesis by (simp add: u c)
    next
      case False
      have "arch_fatal_prepare_loop i n tc pld tr =
              arch_fatal_prepare_loop (i + 1) n tc pld
                (tr @ [Lapic_send_ipi (lapic_id (pld ! nat i)) 0x447D])"
        using False \<open>i < n\<close> by (subst arch_fatal_prepare_loop.simps) simp
      also have "\<dots> = (tr @ [Lapic_send_ipi (lapic_id (pld ! nat i)) 0x447D])
                          @ map (\<lambda>k. Lapic_send_ipi (lapic_id (pld ! nat k)) 0x447D)
                              (filter (\<lambda>k. k \<noteq> cpu_id tc) [i + 1..n - 1])"
        using \<open>i < n\<close> False by (rule "1.IH"(2))
      finally show ?thesis using False by (simp add: u)
    qed
  qed
qed

lemma count_list_distinct: "distinct xs \<Longrightarrow> count_list xs x = (if x \<in> set xs then 1 else 0)"
  by (induction xs) auto

lemma count_list_filter: "count_list (filter P xs) x = (if P x then count_list xs x else 0)"
  by (induction xs) auto

lemma count_list_map_inj_at:
  "\<forall>x\<in>set xs. f x = f y \<longrightarrow> x = y \<Longrightarrow> count_list (map f xs) (f y) = count_list xs y"
  by (induction xs) auto

lemma length_filter_neq:
  "length (filter (\<lambda>k. k \<noteq> c) xs) = length xs - count_list xs c"
  by (induction xs) (auto simp: Suc_diff_le count_le_length)

lemma lapic_id_inj:
  assumes d: "distinct (map lapic_id (take (nat n) pld))" and len: "nat n \<le> length pld"
    and k: "0 \<le> k" "k < n" and j: "0 \<le> j" "j < n"
    and eq: "lapic_id (pld ! nat k) = lapic_id (pld ! nat j)"
  shows "k = j"
proof -
  let ?xs = "map lapic_id (take (nat n) pld)"
  have l: "length ?xs = nat n" using len by simp
  have "nat k < nat n" "nat j < nat n" using k j by auto
  then have "?xs ! nat k = lapic_id (pld ! nat k)" "?xs ! nat j = lapic_id (pld ! nat j)"
    using len by simp_all
  then have "?xs ! nat k = ?xs ! nat j" using eq by simp
  moreover have "nat k < length ?xs" "nat j < length ?xs"
    using \<open>nat k < nat n\<close> \<open>nat j < nat n\<close> l by simp_all
  then have "(?xs ! nat k = ?xs ! nat j) = (nat k = nat j)"
    by (rule nth_eq_iff_index_eq [OF d])
  ultimately have "nat k = nat j" by simp
  then show ?thesis using k j by simp
qed

text \<open>
  C4. With \<open>processor_count\<close> processors whose local APIC identifiers are pairwise
  different, called on the core \<open>c\<close> with \<open>0 \<le> c < processor_count\<close>,
  \<^verbatim>\<open>arch_fatal_prepare\<close> sends the halt interrupt 0x447D exactly once to the local APIC
  of every core \<open>j \<noteq> c\<close>, never to that of core \<open>c\<close>, and makes
  \<open>processor_count - 1\<close> calls of \<^verbatim>\<open>lapic_send_ipi\<close> in all.
\<close>

theorem fatal_prepare_one_ipi_each:
  assumes c: "0 \<le> cpu_id this_core" "cpu_id this_core < processor_count"
    and len: "nat processor_count \<le> length processor_local_data"
    and d: "distinct (map lapic_id (take (nat processor_count) processor_local_data))"
    and j: "0 \<le> j" "j < processor_count"
  shows "count_list (arch_fatal_prepare processor_count this_core processor_local_data [])
           (Lapic_send_ipi (lapic_id (processor_local_data ! nat j)) 0x447D)
         = (if j = cpu_id this_core then 0 else 1)
       \<and> length (arch_fatal_prepare processor_count this_core processor_local_data [])
         = nat processor_count - 1"
proof -
  let ?f = "\<lambda>k. Lapic_send_ipi (lapic_id (processor_local_data ! nat k)) 0x447D"
  let ?ks = "filter (\<lambda>k. k \<noteq> cpu_id this_core) [0..processor_count - 1]"
  have eq: "arch_fatal_prepare processor_count this_core processor_local_data [] = map ?f ?ks"
    by (simp add: arch_fatal_prepare_def arch_fatal_prepare_loop_eq)
  have inj: "\<forall>k\<in>set ?ks. ?f k = ?f j \<longrightarrow> k = j"
    using lapic_id_inj [OF d len _ _ j] by auto
  have "count_list (map ?f ?ks) (?f j) = count_list ?ks j"
    using inj by (rule count_list_map_inj_at)
  also have "\<dots> = (if j = cpu_id this_core then 0 else 1)"
    using j by (simp add: count_list_filter count_list_distinct)
  finally have one: "count_list (map ?f ?ks) (?f j) = (if j = cpu_id this_core then 0 else 1)" .
  have "length ?ks = length [0..processor_count - 1]
                            - count_list [0..processor_count - 1] (cpu_id this_core)"
    by (rule length_filter_neq)
  then have "length ?ks = nat processor_count - 1"
    using c by (simp add: count_list_distinct)
  then show ?thesis using one by (simp only: eq length_map) 
qed

theorem fatal_prepare_one_ipi_each_witness:
  "arch_fatal_prepare 4 (four_cores ! 1) four_cores []
     = [Lapic_send_ipi 0 0x447D, Lapic_send_ipi 4 0x447D, Lapic_send_ipi 6 0x447D]
   \<and> count_list (arch_fatal_prepare 4 (four_cores ! 1) four_cores [])
           (Lapic_send_ipi (lapic_id (four_cores ! nat 2)) 0x447D) = 1
   \<and> count_list (arch_fatal_prepare 4 (four_cores ! 1) four_cores [])
           (Lapic_send_ipi (lapic_id (four_cores ! nat 1)) 0x447D) = 0
   \<and> length (arch_fatal_prepare 4 (four_cores ! 1) four_cores []) = nat 4 - 1"
proof -
  have c: "0 \<le> cpu_id (four_cores ! 1)" "cpu_id (four_cores ! 1) < 4"
    by (simp_all add: four_cores_def)
  have len: "nat 4 \<le> length four_cores" by (simp add: four_cores_def)
  have d: "distinct (map lapic_id (take (nat 4) four_cores))" by (simp add: four_cores_def)
  have run: "arch_fatal_prepare 4 (four_cores ! 1) four_cores []
     = [Lapic_send_ipi 0 0x447D, Lapic_send_ipi 4 0x447D, Lapic_send_ipi 6 0x447D]"
    by (simp add: arch_fatal_prepare_def arch_fatal_prepare_loop.simps four_cores_def)
  show ?thesis
    using run fatal_prepare_one_ipi_each [OF c len d, of 2]
      fatal_prepare_one_ipi_each [OF c len d, of 1]
    by (simp add: four_cores_def)
qed

subsection \<open>Reboot\<close>

lemma hw_call [simp]: "hw (call e s) = hw s"
  by (simp add: call_def)

lemma trace_call [simp]: "trace (call e s) = trace s @ [e]"
  by (simp add: call_def)

lemma inportb_fst: "fst (inportb io p s) = fst (port_in io (hw s) p)"
  by (simp add: inportb_def split: prod.splits)

lemma inportb_hw: "hw (snd (inportb io p s)) = snd (port_in io (hw s) p)"
  by (simp add: inportb_def split: prod.splits)

lemma inportb_trace:
  "trace (snd (inportb io p s)) = trace s @ [Inportb p (fst (port_in io (hw s) p))]"
  by (simp add: inportb_def split: prod.splits)

lemma outportb_hw [simp]: "hw (outportb io p v s) = port_out io (hw s) p v"
  by (simp add: outportb_def)

lemma outportb_trace [simp]: "trace (outportb io p v s) = trace s @ [Outportb p v]"
  by (simp add: outportb_def)

lemma reboot_wait_step:
  "out AND 0x02 \<noteq> 0 \<Longrightarrow>
   arch_reboot_wait io out s =
     arch_reboot_wait io (fst (inportb io 0x64 s)) (snd (inportb io 0x64 s))"
  by (subst arch_reboot_wait.simps) (simp add: split_beta)

lemma reboot_wait_done: "out AND 0x02 = 0 \<Longrightarrow> arch_reboot_wait io out s = Some s"
  by (subst arch_reboot_wait.simps) simp

lemma reboot_wait_returns:
  "kbd_ready_at io n (hw s) \<Longrightarrow> \<exists>s'. arch_reboot_wait io out s = Some s'"
proof (induction n arbitrary: s out)
  case 0
  show ?case
  proof (cases "out AND 0x02 = 0")
    case True
    then show ?thesis by (simp add: reboot_wait_done)
  next
    case False
    have "fst (inportb io 0x64 s) AND 0x02 = 0"
      using 0 by (simp add: kbd_ready_at_def inportb_fst)
    then show ?thesis using False by (simp add: reboot_wait_step reboot_wait_done)
  qed
next
  case (Suc n)
  show ?case
  proof (cases "out AND 0x02 = 0")
    case True
    then show ?thesis by (simp add: reboot_wait_done)
  next
    case False
    have "kbd_ready_at io n (hw (snd (inportb io 0x64 s)))"
      using Suc.prems by (simp add: kbd_ready_at_def inportb_hw)
    then have "\<exists>s'. arch_reboot_wait io (fst (inportb io 0x64 s)) (snd (inportb io 0x64 s)) = Some s'"
      by (rule Suc.IH)
    then show ?thesis using False by (simp add: reboot_wait_step)
  qed
qed

lemma reboot_wait_ready_aux:
  assumes "arch_reboot_wait io out s = Some s'"
  shows "out AND 0x02 \<noteq> 0 \<longrightarrow> (\<exists>n. kbd_ready_at io n (hw s))"
proof (rule arch_reboot_wait.raw_induct
    [where P = "\<lambda>io out s s'. out AND 0x02 \<noteq> 0 \<longrightarrow> (\<exists>n. kbd_ready_at io n (hw s))",
      OF _ assms], goal_cases)
  case (1 wait io out s y)
  show ?case
  proof
    assume o: "out AND 0x02 \<noteq> 0"
    obtain v s1 where r: "inportb io 0x64 s = (v, s1)" by (cases "inportb io 0x64 s")
    have v: "v = fst (port_in io (hw s) 0x64)" and h: "hw s1 = snd (port_in io (hw s) 0x64)"
      using r inportb_fst [of io "0x64" s] inportb_hw [of io "0x64" s] by simp_all
    from 1(2) o r have w: "wait io v s1 = Some y" by simp
    show "\<exists>n. kbd_ready_at io n (hw s)"
    proof (cases "v AND 0x02 = 0")
      case True
      then have "kbd_ready_at io 0 (hw s)" by (simp add: kbd_ready_at_def v)
      then show ?thesis ..
    next
      case False
      with 1(1) [OF w] obtain n where "kbd_ready_at io n (hw s1)" by blast
      then have "kbd_ready_at io (Suc n) (hw s)" by (simp add: kbd_ready_at_def h)
      then show ?thesis ..
    qed
  qed
qed

lemma reboot_wait_ready:
  "arch_reboot_wait io out s = Some s' \<Longrightarrow> out AND 0x02 \<noteq> 0 \<Longrightarrow> \<exists>n. kbd_ready_at io n (hw s)"
  using reboot_wait_ready_aux by blast

text \<open>
  C6, as amended. \<^verbatim>\<open>arch_reboot\<close> returns to its caller exactly when some read of the
  keyboard controller's status shows the input buffer empty; whenever it returns, the
  value returned is 0 and the last thing it has done is to write the reset command
  0xFE to port 0x64. No other value is ever returned.
\<close>

theorem reboot_returns_zero:
  "(\<exists>n. kbd_ready_at io n (hw s)) = (\<exists>s'. arch_reboot io frame mmu_map_from_physical s = Some (0, s'))
   \<and> (\<forall>r s'. arch_reboot io frame mmu_map_from_physical s = Some (r, s') \<longrightarrow>
         r = 0 \<and> last (trace s') = Outportb 0x64 0xFE)"
proof -
  let ?s3 = "call (Lidt (mmu_map_from_physical (push_bit 12 frame)))
              (call (Memset (mmu_map_from_physical (push_bit 12 frame)) 0 0x1000)
                (call (Mmu_allocate_a_frame frame) s))"
  have hw3: "hw ?s3 = hw s" by simp
  have unf: "arch_reboot io frame mmu_map_from_physical s =
          (case arch_reboot_wait io 0x02 ?s3 of None \<Rightarrow> None
           | Some s4 \<Rightarrow> Some (0, outportb io 0x64 0xFE s4))"
    by (simp add: arch_reboot_def Let_def)
  have a: "(\<exists>n. kbd_ready_at io n (hw s)) \<Longrightarrow> \<exists>s'. arch_reboot io frame mmu_map_from_physical s = Some (0, s')"
  proof -
    assume "\<exists>n. kbd_ready_at io n (hw s)"
    then obtain n where "kbd_ready_at io n (hw ?s3)" unfolding hw3 ..
    then obtain s4 where "arch_reboot_wait io 0x02 ?s3 = Some s4"
      using reboot_wait_returns by blast
    then show ?thesis by (simp add: unf)
  qed
  have b: "\<exists>n. kbd_ready_at io n (hw s)" if "arch_reboot io frame mmu_map_from_physical s = Some (r, s')" for r s'
  proof -
    from that obtain s4 where "arch_reboot_wait io 0x02 ?s3 = Some s4"
      by (auto simp add: unf split: option.splits)
    then have "\<exists>n. kbd_ready_at io n (hw ?s3)" by (rule reboot_wait_ready) simp
    then show ?thesis unfolding hw3 .
  qed
  have c: "r = 0 \<and> last (trace s') = Outportb 0x64 0xFE" if "arch_reboot io frame mmu_map_from_physical s = Some (r, s')" for r s'
    using that by (auto simp add: unf split: option.splits)
  show ?thesis using a b c by blast
qed

theorem reboot_returns_zero_witness:
  "kbd_ready_at mock 0 (hw (boot power_on))
   \<and> (\<exists>s'. arch_reboot mock 5 (\<lambda>x. x) (boot power_on) = Some (0, s'))"
proof -
  have r: "kbd_ready_at mock 0 (hw (boot power_on))"
    by (simp add: kbd_ready_at_def mock_def mock_in_def boot_def power_on_def)
  then have "\<exists>n. kbd_ready_at mock n (hw (boot power_on))" ..
  then show ?thesis
    using r reboot_returns_zero [of mock "boot power_on" 5 "\<lambda>x. x"] by blast
qed

lemma kbd_busy_reads: "kbd_reads mock n kbd_busy = kbd_busy"
  by (induction n) (simp_all add: mock_def mock_in_def)

lemma kbd_busy_never_ready: "\<not> kbd_ready_at mock n kbd_busy"
  by (simp add: kbd_ready_at_def kbd_busy_reads) (simp add: mock_def mock_in_def kbd_busy_def)

text \<open>
  C6 as stated fails twice. On a controller that accepts the command, the call returns
  0, the value that says success, so that the caller is given no indication of failure;
  on a controller whose status never shows the input buffer empty, the call does not
  return.
\<close>

theorem reboot_failure_indication_counterexample:
  "map_option fst (arch_reboot mock 5 (\<lambda>x. x) (boot power_on)) = Some 0
   \<and> arch_reboot mock 5 (\<lambda>x. x) (boot kbd_busy) = None"
proof
  show "map_option fst (arch_reboot mock 5 (\<lambda>x. x) (boot power_on)) = Some 0"
    by code_simp
next
  let ?s3 = "call (Lidt (push_bit 12 5))
              (call (Memset (push_bit 12 5) 0 0x1000)
                (call (Mmu_allocate_a_frame 5) (boot kbd_busy)))"
  have "arch_reboot_wait mock 0x02 ?s3 = None"
  proof (cases "arch_reboot_wait mock 0x02 ?s3")
    case None
    then show ?thesis .
  next
    case (Some s4)
    then have "\<exists>n. kbd_ready_at mock n (hw ?s3)" by (rule reboot_wait_ready) simp
    then show ?thesis by (simp add: boot_def kbd_busy_never_ready)
  qed
  then show "arch_reboot mock 5 (\<lambda>x. x) (boot kbd_busy) = None"
    by (simp add: arch_reboot_def Let_def)
qed

section \<open>Theorems about serial.c\<close>

subsection \<open>The interrupt handlers\<close>

text \<open>
  C8. Each of the two interrupt handlers makes exactly two calls, in this order:
  \<^verbatim>\<open>irq_ack\<close> on its line (4 for \<^verbatim>\<open>serial_handler_ac\<close>, 3 for \<^verbatim>\<open>serial_handler_bd\<close>)
  and then \<^verbatim>\<open>wakeup_queue\<close> on its queue. It returns 1. The trace gains no other event:
  no port read or write, no yield, no sleep and no allocation; the devices and every
  variable of the driver are as they were.
\<close>

theorem serial_handlers_ack_then_wake:
  "serial_handler_ac r s
     = (1, s\<lparr>trace := trace s @ [Irq_ack 4, Wakeup_queue (sem_serial_ac s)]\<rparr>)
   \<and> serial_handler_bd r s
     = (1, s\<lparr>trace := trace s @ [Irq_ack 3, Wakeup_queue (sem_serial_bd s)]\<rparr>)
   \<and> hw (snd (serial_handler_ac r s)) = hw s
   \<and> hw (snd (serial_handler_bd r s)) = hw s"
  by (simp add: serial_handler_ac_def serial_handler_bd_def irq_ack_def wakeup_queue_def
      call_def SERIAL_IRQ_AC_def SERIAL_IRQ_BD_def)

subsection \<open>One registration for each interrupt line\<close>

lemma installs_append [simp]: "installs irq (xs @ ys) = installs irq xs + installs irq ys"
  by (simp add: installs_def)

lemma installs_simps [simp]:
  "installs irq [] = 0"
  "installs irq (Irq_install_handler i h d # tr) = (if i = irq then 1 else 0) + installs irq tr"
  "installs irq (Outportb p v # tr) = installs irq tr"
  "installs irq (Pty_new q # tr) = installs irq tr"
  by (simp_all add: installs_def)

lemma serial_enable_trace:
  "installs irq (trace (serial_enable io port s)) = installs irq (trace s)"
  by (simp add: serial_enable_def Let_def)

lemma serial_enable_flags [simp]:
  "have_installed_ac (serial_enable io port s) = have_installed_ac s"
  "have_installed_bd (serial_enable io port s) = have_installed_bd s"
  by (simp_all add: serial_enable_def Let_def outportb_def call_def)

lemma pty_for_port_valid:
  "port \<in> {SERIAL_PORT_A, SERIAL_PORT_B, SERIAL_PORT_C, SERIAL_PORT_D}
   \<Longrightarrow> \<exists>slot. pty_for_port port = Inr slot"
  by (auto simp add: pty_for_port_def)

lemma store_slot_frame [simp]:
  "trace (store_slot slot p s) = trace s"
  "have_installed_ac (store_slot slot p s) = have_installed_ac s"
  "have_installed_bd (store_slot slot p s) = have_installed_bd s"
  by (cases slot; simp)+

lemma update_pty_frame [simp]:
  "trace (update_pty p f s) = trace s"
  "have_installed_ac (update_pty p f s) = have_installed_ac s"
  "have_installed_bd (update_pty p f s) = have_installed_bd s"
  by (simp_all add: update_pty_def)

lemma serial_device_create_unfold:
  assumes "pty_for_port port = Inr slot"
  shows "serial_device_create io port s =
     Inr (next_ptr s,
       update_pty (next_ptr s) (\<lambda>p. p\<lparr>slave_mask := Some (6 * 64 + 6 * 8)\<rparr>)
        (update_pty (next_ptr s) (\<lambda>p. p\<lparr>slave_gid := Some 2\<rparr>)
          (let s5 = serial_enable io port
                 (update_pty (next_ptr s) (\<lambda>p. p\<lparr>fill_name := Some Serial_fill_name\<rparr>)
                   (update_pty (next_ptr s) (\<lambda>p. p\<lparr>write_out := Some Serial_write_out\<rparr>)
                     (store_slot slot (Some (next_ptr s)) (snd (pty_new s)))))
           in if port = SERIAL_PORT_A \<or> port = SERIAL_PORT_C then
                (if have_installed_ac s5 = 0
                 then (irq_install_handler SERIAL_IRQ_AC Serial_handler_ac ''serial ac'' s5)
                        \<lparr>have_installed_ac := 1\<rparr>
                 else s5)
              else
                (if have_installed_bd s5 = 0
                 then (irq_install_handler SERIAL_IRQ_BD Serial_handler_bd ''serial bd'' s5)
                        \<lparr>have_installed_bd := 1\<rparr>
                 else s5))))"
  by (simp add: serial_device_create_def assms pty_new_def Let_def)

lemma pty_new_frame [simp]:
  "installs irq (trace (snd (pty_new s))) = installs irq (trace s)"
  "have_installed_ac (snd (pty_new s)) = have_installed_ac s"
  "have_installed_bd (snd (pty_new s)) = have_installed_bd s"
  by (simp_all add: pty_new_def Let_def call_def)

lemma irq_install_handler_frame [simp]:
  "installs irq (trace (irq_install_handler i h d s)) =
     installs irq (trace s) + (if i = irq then 1 else 0)"
  "have_installed_ac (irq_install_handler i h d s) = have_installed_ac s"
  "have_installed_bd (irq_install_handler i h d s) = have_installed_bd s"
  by (simp_all add: irq_install_handler_def call_def)

lemma serial_device_create_installs:
  assumes "port \<in> {SERIAL_PORT_A, SERIAL_PORT_B, SERIAL_PORT_C, SERIAL_PORT_D}"
  shows "\<exists>node s'. serial_device_create io port s = Inr (node, s')
     \<and> installs SERIAL_IRQ_AC (trace s') = installs SERIAL_IRQ_AC (trace s)
         + (if have_installed_ac s = 0 \<and> (port = SERIAL_PORT_A \<or> port = SERIAL_PORT_C)
            then 1 else 0)
     \<and> installs SERIAL_IRQ_BD (trace s') = installs SERIAL_IRQ_BD (trace s)
         + (if have_installed_bd s = 0 \<and> (port = SERIAL_PORT_B \<or> port = SERIAL_PORT_D)
            then 1 else 0)
     \<and> (have_installed_ac s' = 0) =
         (have_installed_ac s = 0 \<and> \<not> (port = SERIAL_PORT_A \<or> port = SERIAL_PORT_C))
     \<and> (have_installed_bd s' = 0) =
         (have_installed_bd s = 0 \<and> \<not> (port = SERIAL_PORT_B \<or> port = SERIAL_PORT_D))"
proof -
  obtain slot where slot: "pty_for_port port = Inr slot"
    using pty_for_port_valid [OF assms] ..
  have ne: "SERIAL_PORT_A \<noteq> SERIAL_PORT_B" "SERIAL_PORT_A \<noteq> SERIAL_PORT_D"
    "SERIAL_PORT_C \<noteq> SERIAL_PORT_B" "SERIAL_PORT_C \<noteq> SERIAL_PORT_D"
    "SERIAL_IRQ_AC \<noteq> SERIAL_IRQ_BD" "SERIAL_IRQ_BD \<noteq> SERIAL_IRQ_AC"
    by (simp_all add: SERIAL_PORT_A_def SERIAL_PORT_B_def SERIAL_PORT_C_def SERIAL_PORT_D_def
        SERIAL_IRQ_AC_def SERIAL_IRQ_BD_def)
  consider (ac) "port = SERIAL_PORT_A \<or> port = SERIAL_PORT_C"
    | (bd) "port = SERIAL_PORT_B \<or> port = SERIAL_PORT_D"
    using assms by blast
  then show ?thesis
  proof cases
    case ac
    then have nbd: "\<not> (port = SERIAL_PORT_B \<or> port = SERIAL_PORT_D)" using ne by auto
    show ?thesis
      unfolding serial_device_create_unfold [OF slot]
      by (cases "have_installed_ac s = 0")
        (simp_all add: ac nbd ne Let_def serial_enable_trace)
  next
    case bd
    then have nac: "\<not> (port = SERIAL_PORT_A \<or> port = SERIAL_PORT_C)" using ne by auto
    show ?thesis
      unfolding serial_device_create_unfold [OF slot]
      by (cases "have_installed_bd s = 0")
        (simp_all add: bd nac ne Let_def serial_enable_trace)
  qed
qed

text \<open>
  C7. For every list of ports, each one of the four known ports, in any order and with
  any repetition, bringing the ports up in turn succeeds, and the number of calls of
  \<^verbatim>\<open>irq_install_handler\<close> for line 4 that it makes is 1 if the flag
  \<^verbatim>\<open>have_installed_ac\<close> was 0 before and the list holds port A or port C, and 0
  otherwise; the same holds of line 3, \<^verbatim>\<open>have_installed_bd\<close> and the ports B and D.
  The flag of a line is 0 afterwards exactly if it was 0 before and no port of the line
  was brought up.
\<close>

theorem one_registration_per_line:
  assumes "set ports \<subseteq> {SERIAL_PORT_A, SERIAL_PORT_B, SERIAL_PORT_C, SERIAL_PORT_D}"
  shows "\<exists>s'. bring_up io ports s = Inr s'
     \<and> installs SERIAL_IRQ_AC (trace s') = installs SERIAL_IRQ_AC (trace s)
         + (if have_installed_ac s = 0
               \<and> (SERIAL_PORT_A \<in> set ports \<or> SERIAL_PORT_C \<in> set ports) then 1 else 0)
     \<and> installs SERIAL_IRQ_BD (trace s') = installs SERIAL_IRQ_BD (trace s)
         + (if have_installed_bd s = 0
               \<and> (SERIAL_PORT_B \<in> set ports \<or> SERIAL_PORT_D \<in> set ports) then 1 else 0)
     \<and> (have_installed_ac s' = 0) =
         (have_installed_ac s = 0
            \<and> \<not> (SERIAL_PORT_A \<in> set ports \<or> SERIAL_PORT_C \<in> set ports))
     \<and> (have_installed_bd s' = 0) =
         (have_installed_bd s = 0
            \<and> \<not> (SERIAL_PORT_B \<in> set ports \<or> SERIAL_PORT_D \<in> set ports))"
  using assms
proof (induction ports arbitrary: s)
  case Nil
  then show ?case by simp
next
  case (Cons port ports)
  then have p: "port \<in> {SERIAL_PORT_A, SERIAL_PORT_B, SERIAL_PORT_C, SERIAL_PORT_D}"
    and ps: "set ports \<subseteq> {SERIAL_PORT_A, SERIAL_PORT_B, SERIAL_PORT_C, SERIAL_PORT_D}"
    by simp_all
  from serial_device_create_installs [OF p, of io s]
  obtain node s1 where c: "serial_device_create io port s = Inr (node, s1)"
    and a1: "installs SERIAL_IRQ_AC (trace s1) = installs SERIAL_IRQ_AC (trace s)
         + (if have_installed_ac s = 0 \<and> (port = SERIAL_PORT_A \<or> port = SERIAL_PORT_C)
            then 1 else 0)"
    and b1: "installs SERIAL_IRQ_BD (trace s1) = installs SERIAL_IRQ_BD (trace s)
         + (if have_installed_bd s = 0 \<and> (port = SERIAL_PORT_B \<or> port = SERIAL_PORT_D)
            then 1 else 0)"
    and fa: "(have_installed_ac s1 = 0) =
         (have_installed_ac s = 0 \<and> \<not> (port = SERIAL_PORT_A \<or> port = SERIAL_PORT_C))"
    and fb: "(have_installed_bd s1 = 0) =
         (have_installed_bd s = 0 \<and> \<not> (port = SERIAL_PORT_B \<or> port = SERIAL_PORT_D))"
    by blast
  from Cons.IH [OF ps, of s1] obtain s' where r: "bring_up io ports s1 = Inr s'"
    and a2: "installs SERIAL_IRQ_AC (trace s') = installs SERIAL_IRQ_AC (trace s1)
         + (if have_installed_ac s1 = 0
               \<and> (SERIAL_PORT_A \<in> set ports \<or> SERIAL_PORT_C \<in> set ports) then 1 else 0)"
    and b2: "installs SERIAL_IRQ_BD (trace s') = installs SERIAL_IRQ_BD (trace s1)
         + (if have_installed_bd s1 = 0
               \<and> (SERIAL_PORT_B \<in> set ports \<or> SERIAL_PORT_D \<in> set ports) then 1 else 0)"
    and fa2: "(have_installed_ac s' = 0) =
         (have_installed_ac s1 = 0
            \<and> \<not> (SERIAL_PORT_A \<in> set ports \<or> SERIAL_PORT_C \<in> set ports))"
    and fb2: "(have_installed_bd s' = 0) =
         (have_installed_bd s1 = 0
            \<and> \<not> (SERIAL_PORT_B \<in> set ports \<or> SERIAL_PORT_D \<in> set ports))"
    by blast
  have "bring_up io (port # ports) s = Inr s'" using c r by simp
  moreover have "installs SERIAL_IRQ_AC (trace s') = installs SERIAL_IRQ_AC (trace s)
         + (if have_installed_ac s = 0
               \<and> (SERIAL_PORT_A \<in> set (port # ports) \<or> SERIAL_PORT_C \<in> set (port # ports))
            then 1 else 0)"
    using a1 a2 fa by auto
  moreover have "installs SERIAL_IRQ_BD (trace s') = installs SERIAL_IRQ_BD (trace s)
         + (if have_installed_bd s = 0
               \<and> (SERIAL_PORT_B \<in> set (port # ports) \<or> SERIAL_PORT_D \<in> set (port # ports))
            then 1 else 0)"
    using b1 b2 fb by auto
  moreover have "(have_installed_ac s' = 0) =
         (have_installed_ac s = 0
            \<and> \<not> (SERIAL_PORT_A \<in> set (port # ports) \<or> SERIAL_PORT_C \<in> set (port # ports)))"
    using fa fa2 by auto
  moreover have "(have_installed_bd s' = 0) =
         (have_installed_bd s = 0
            \<and> \<not> (SERIAL_PORT_B \<in> set (port # ports) \<or> SERIAL_PORT_D \<in> set (port # ports)))"
    using fb fb2 by auto
  ultimately show ?case by blast
qed

theorem one_registration_per_line_witness:
  "set [SERIAL_PORT_C, SERIAL_PORT_A]
     \<subseteq> {SERIAL_PORT_A, SERIAL_PORT_B, SERIAL_PORT_C, SERIAL_PORT_D}
   \<and> (\<exists>s'. bring_up mock [SERIAL_PORT_C, SERIAL_PORT_A] (boot power_on) = Inr s'
          \<and> installs SERIAL_IRQ_AC (trace s') = 1
          \<and> installs SERIAL_IRQ_BD (trace s') = 0
          \<and> have_installed_ac s' \<noteq> 0
          \<and> have_installed_bd s' = 0)"
proof -
  have sub: "set [SERIAL_PORT_C, SERIAL_PORT_A]
     \<subseteq> {SERIAL_PORT_A, SERIAL_PORT_B, SERIAL_PORT_C, SERIAL_PORT_D}"
    by simp
  have ne: "SERIAL_PORT_B \<noteq> SERIAL_PORT_C" "SERIAL_PORT_B \<noteq> SERIAL_PORT_A"
    "SERIAL_PORT_D \<noteq> SERIAL_PORT_C" "SERIAL_PORT_D \<noteq> SERIAL_PORT_A"
    by (simp_all add: SERIAL_PORT_A_def SERIAL_PORT_B_def SERIAL_PORT_C_def SERIAL_PORT_D_def)
  show ?thesis
    using sub ne one_registration_per_line [OF sub, of mock "boot power_on"]
    by (simp add: boot_def)
qed

subsection \<open>The device model\<close>

lemma uart_base_cases:
  "base \<in> set uart_bases \<Longrightarrow> base = 0x3F8 \<or> base = 0x2F8 \<or> base = 0x3E8 \<or> base = 0x2E8"
  by (simp add: uart_bases_def)

lemma mock_in_lsr:
  assumes "base \<in> set uart_bases"
  shows "mock_in h (base + 5) = ((if rx_fifo h base = [] then 0x60 else 0x61), h)"
proof -
  have "base = 0x3F8 \<or> base = 0x2F8 \<or> base = 0x3E8 \<or> base = 0x2E8"
    using assms by (rule uart_base_cases)
  then show ?thesis
    by (elim disjE) (simp_all add: mock_in_def Let_def uart_bases_def)
qed

lemma mock_in_ier:
  assumes "base \<in> set uart_bases" and "\<not> bit (lcr h base) 7"
  shows "mock_in h (base + 1) = (ier h base, h)"
proof -
  have "base = 0x3F8 \<or> base = 0x2F8 \<or> base = 0x3E8 \<or> base = 0x2E8"
    using assms(1) by (rule uart_base_cases)
  then show ?thesis using assms(2)
    by (elim disjE) (simp_all add: mock_in_def Let_def uart_bases_def)
qed

lemma mock_in_rbr:
  assumes "base \<in> set uart_bases" and "\<not> bit (lcr h base) 7" and "rx_fifo h base = b # bs"
  shows "mock_in h base = (b, h\<lparr>rx_fifo := (rx_fifo h)(base := bs)\<rparr>)"
proof -
  have "base = 0x3F8 \<or> base = 0x2F8 \<or> base = 0x3E8 \<or> base = 0x2E8"
    using assms(1) by (rule uart_base_cases)
  then show ?thesis using assms(2,3)
    by (elim disjE) (simp_all add: mock_in_def Let_def uart_bases_def)
qed

lemma port_in_mock [simp]: "port_in mock = mock_in"
  by (simp add: mock_def)

lemma yield_mock [simp]: "yield mock h = h"
  by (simp add: mock_def)

lemma switch_task_mock: "switch_task mock n s = call (Switch_task n) s"
  by (simp add: switch_task_def)

lemma serial_rcvd_mock:
  "base \<in> set uart_bases \<Longrightarrow>
   serial_rcvd mock base s =
     (if rx_fifo (hw s) base = [] then (0, call (Inportb (base + 5) 0x60) s)
      else (1, call (Inportb (base + 5) 0x61) s))"
  by (simp add: serial_rcvd_def inportb_def mock_in_lsr)

lemma serial_recv_mock_empty_aux:
  assumes "serial_recv io device s = Some y"
  shows "io = mock \<longrightarrow> device \<in> set uart_bases \<longrightarrow> rx_fifo (hw s) device \<noteq> []"
proof (rule serial_recv.raw_induct
    [where P = "\<lambda>io device s y. io = mock \<longrightarrow> device \<in> set uart_bases
                  \<longrightarrow> rx_fifo (hw s) device \<noteq> []", OF _ assms], goal_cases)
  case (1 recv io device s y)
  show ?case
  proof (intro impI notI)
    assume io: "io = mock" and d: "device \<in> set uart_bases" and e: "rx_fifo (hw s) device = []"
    let ?s1 = "call (Inportb (device + 5) 0x60) s"
    from 1(2) have "recv mock device (call (Switch_task 1) ?s1) = Some y"
      by (simp add: io serial_rcvd_mock [OF d] e switch_task_mock)
    from 1(1) [OF this] d have "rx_fifo (hw (call (Switch_task 1) ?s1)) device \<noteq> []"
      by simp
    then show False using e by simp
  qed
qed

lemma serial_recv_mock_empty:
  assumes "device \<in> set uart_bases" and "rx_fifo (hw s) device = []"
  shows "serial_recv mock device s = None"
proof (cases "serial_recv mock device s")
  case None
  then show ?thesis .
next
  case (Some y)
  then have "rx_fifo (hw s) device \<noteq> []"
    using serial_recv_mock_empty_aux [OF Some] assms(1) by simp
  then show ?thesis using assms(2) by simp
qed

lemma serial_recv_mock_ready:
  assumes "device \<in> set uart_bases" "\<not> bit (lcr (hw s) device) 7"
    "rx_fifo (hw s) device = b # bs"
  shows "serial_recv mock device s =
     Some (b, s\<lparr>hw := (hw s)\<lparr>rx_fifo := (rx_fifo (hw s))(device := bs)\<rparr>,
                trace := trace s @ [Inportb (device + 5) 0x61, Inportb device b]\<rparr>)"
  using assms
  by (subst serial_recv.simps)
    (simp add: serial_rcvd_mock inportb_def mock_in_rbr call_def)

lemma port_out_mock [simp]: "port_out mock = mock_out"
  by (simp add: mock_def)

lemma mock_out_ier:
  assumes "base \<in> set uart_bases"
  shows "mock_out h (base + 1) v =
           (if bit (lcr h base) 7 then h else h\<lparr>ier := (ier h)(base := v)\<rparr>)"
proof -
  have "base = 0x3F8 \<or> base = 0x2F8 \<or> base = 0x3E8 \<or> base = 0x2E8"
    using assms by (rule uart_base_cases)
  then show ?thesis
    by (elim disjE) (simp_all add: mock_out_def Let_def uart_bases_def)
qed

lemma mock_out_lcr:
  assumes "base \<in> set uart_bases"
  shows "mock_out h (base + 3) v = h\<lparr>lcr := (lcr h)(base := v)\<rparr>"
proof -
  have "base = 0x3F8 \<or> base = 0x2F8 \<or> base = 0x3E8 \<or> base = 0x2E8"
    using assms by (rule uart_base_cases)
  then show ?thesis
    by (elim disjE) (simp_all add: mock_out_def Let_def uart_bases_def)
qed

lemma mock_out_other:
  assumes "base \<in> set uart_bases"
  shows "mock_out h base v = h" "mock_out h (base + 2) v = h" "mock_out h (base + 4) v = h"
proof -
  have c: "base = 0x3F8 \<or> base = 0x2F8 \<or> base = 0x3E8 \<or> base = 0x2E8"
    using assms by (rule uart_base_cases)
  from c show "mock_out h base v = h"
    by (elim disjE) (simp_all add: mock_out_def Let_def uart_bases_def)
  from c show "mock_out h (base + 2) v = h"
    by (elim disjE) (simp_all add: mock_out_def Let_def uart_bases_def)
  from c show "mock_out h (base + 4) v = h"
    by (elim disjE) (simp_all add: mock_out_def Let_def uart_bases_def)
qed

lemma serial_enable_mock_hw:
  assumes "base \<in> set uart_bases"
  shows "hw (serial_enable mock base s)
           = (hw s)\<lparr>ier := (ier (hw s))(base := 1), lcr := (lcr (hw s))(base := 3)\<rparr>"
  by (cases "bit (lcr (hw s) base) 7")
    (simp_all add: serial_enable_def Let_def mock_out_ier [OF assms] mock_out_lcr [OF assms]
      mock_out_other [OF assms])

lemma serial_enable_frame [simp]:
  "sem_serial_ac (serial_enable io port s) = sem_serial_ac s"
  "sem_serial_bd (serial_enable io port s) = sem_serial_bd s"
  "serial_port_pty_a (serial_enable io port s) = serial_port_pty_a s"
  "serial_port_pty_b (serial_enable io port s) = serial_port_pty_b s"
  "serial_port_pty_c (serial_enable io port s) = serial_port_pty_c s"
  "serial_port_pty_d (serial_enable io port s) = serial_port_pty_d s"
  "next_ptr (serial_enable io port s) = next_ptr s"
  by (simp_all add: serial_enable_def Let_def outportb_def call_def)

subsection \<open>The worker on the device model\<close>

lemma tty_inputs_append: "tty_inputs (xs @ ys) = tty_inputs xs @ tty_inputs ys"
  by (induction xs rule: tty_inputs.induct) simp_all

lemma tty_inputs_drain_events: "tty_inputs (drain_events port pty bs) = map (Pair pty) bs"
  by (induction port pty bs rule: drain_events.induct) (simp_all add: tty_inputs_append)

lemma load_slot_frame [simp]:
  "load_slot slot (s\<lparr>hw := h\<rparr>) = load_slot slot s"
  "load_slot slot (s\<lparr>trace := tr\<rparr>) = load_slot slot s"
  by (cases slot; simp)+

lemma process_serial_loop_mock:
  assumes "port \<in> set uart_bases" and "pty_for_port port = Inr slot"
    and "\<not> bit (lcr (hw s) port) 7" and "rx_fifo (hw s) port = b # bs"
  shows "process_serial_loop mock port s =
     Some (Inr (s\<lparr>hw := (hw s)\<lparr>rx_fifo := (rx_fifo (hw s))(port := [])\<rparr>,
                   trace := trace s @ drain_events port (load_slot slot s) (b # bs)\<rparr>))"
  using assms(3,4)
proof (induction bs arbitrary: b s)
  case Nil
  show ?case
    by (subst process_serial_loop.simps)
      (simp add: serial_recv_mock_ready [OF assms(1) Nil.prems] assms(2) Let_def
        tty_input_process_def serial_rcvd_mock [OF assms(1)] call_def)
next
  case (Cons b' bs)
  let ?s5 = "s\<lparr>hw := (hw s)\<lparr>rx_fifo := (rx_fifo (hw s))(port := b' # bs)\<rparr>,
                 trace := trace s @ [Inportb (port + 5) 0x61, Inportb port b,
                   Tty_input_process (load_slot slot s) b, Inportb (port + 5) 0x61,
                   Switch_task 1]\<rparr>"
  have step: "process_serial_loop mock port s = process_serial_loop mock port ?s5"
    by (subst process_serial_loop.simps)
      (simp add: serial_recv_mock_ready [OF assms(1) Cons.prems] assms(2) Let_def
        tty_input_process_def serial_rcvd_mock [OF assms(1)] call_def switch_task_def)
  have l: "\<not> bit (lcr (hw ?s5) port) 7" using Cons.prems(1) by simp
  have f: "rx_fifo (hw ?s5) port = b' # bs" by simp
  show ?case
    unfolding step Cons.IH [OF l f] by (simp add: fun_upd_def cong: if_cong)
qed

lemma bit0_and_1:
  fixes v :: "8 word"
  assumes "bit v 0"
  shows "v AND 0x01 \<noteq> 0"
proof
  assume "v AND 0x01 = 0"
  then have "bit (v AND 1) 0 = bit (0 :: 8 word) 0" by simp
  then show False using assms by (simp add: bit_and_iff)
qed

lemma process_serial_iteration_mock_drain:
  assumes "portBase \<in> set uart_bases" and "pty_for_port portBase = Inr slot"
    and "\<not> bit (lcr (hw s) portBase) 7" and "bit (ier (hw s) portBase) 0"
    and "rx_fifo (hw s) portBase = b # bs"
  shows "process_serial_iteration mock argp portBase s =
     Some (Inr (s\<lparr>hw := (hw s)\<lparr>rx_fifo := (rx_fifo (hw s))(portBase := [])\<rparr>,
                   trace := trace s @ [Sleep_on argp, Inportb (portBase + 1) (ier (hw s) portBase)]
                              @ drain_events portBase (load_slot slot s) (b # bs)\<rparr>))"
proof -
  let ?s1 = "s\<lparr>trace := trace s @ [Sleep_on argp, Inportb (portBase + 1) (ier (hw s) portBase)]\<rparr>"
  have v: "ier (hw s) portBase AND 0x01 \<noteq> 0" using assms(4) by (rule bit0_and_1)
  have it: "process_serial_iteration mock argp portBase s = process_serial_loop mock portBase ?s1"
    using v by (simp add: process_serial_iteration_def Let_def inportb_def
        mock_in_ier [OF assms(1,3)] call_def)
  have l: "\<not> bit (lcr (hw ?s1) portBase) 7" using assms(3) by simp
  have f: "rx_fifo (hw ?s1) portBase = b # bs" using assms(5) by simp
  show ?thesis
    unfolding it process_serial_loop_mock [OF assms(1,2) l f] by simp
qed

lemma process_serial_iteration_mock_idle:
  assumes "portBase \<in> set uart_bases"
    and "\<not> bit (lcr (hw s) portBase) 7" and "bit (ier (hw s) portBase) 0"
    and "rx_fifo (hw s) portBase = []"
  shows "process_serial_iteration mock argp portBase s = None"
proof -
  let ?s1 = "s\<lparr>trace := trace s @ [Sleep_on argp, Inportb (portBase + 1) (ier (hw s) portBase)]\<rparr>"
  have v: "ier (hw s) portBase AND 0x01 \<noteq> 0" using assms(3) by (rule bit0_and_1)
  have it: "process_serial_iteration mock argp portBase s = process_serial_loop mock portBase ?s1"
    using v by (simp add: process_serial_iteration_def Let_def inportb_def
        mock_in_ier [OF assms(1,2)] call_def)
  have "serial_recv mock portBase ?s1 = None"
    using assms(1) by (rule serial_recv_mock_empty) (simp add: assms(4))
  then show ?thesis
    unfolding it by (subst process_serial_loop.simps) simp
qed

subsection \<open>Initialisation on the device model\<close>

lemma update_pty_more_frame [simp]:
  "hw (update_pty p f s) = hw s"
  "sem_serial_ac (update_pty p f s) = sem_serial_ac s"
  "sem_serial_bd (update_pty p f s) = sem_serial_bd s"
  "next_ptr (update_pty p f s) = next_ptr s"
  "load_slot sl (update_pty p f s) = load_slot sl s"
  by (simp_all add: update_pty_def) (cases sl; simp)

lemma store_slot_more_frame [simp]:
  "hw (store_slot slot p s) = hw s"
  "sem_serial_ac (store_slot slot p s) = sem_serial_ac s"
  "sem_serial_bd (store_slot slot p s) = sem_serial_bd s"
  "next_ptr (store_slot slot p s) = next_ptr s"
  by (cases slot; simp)+

lemma load_store_slot [simp]:
  "load_slot sl (store_slot slot p s) = (if sl = slot then p else load_slot sl s)"
  by (cases slot; cases sl; simp)

lemma pty_new_more_frame [simp]:
  "hw (snd (pty_new s)) = hw s"
  "sem_serial_ac (snd (pty_new s)) = sem_serial_ac s"
  "sem_serial_bd (snd (pty_new s)) = sem_serial_bd s"
  "next_ptr (snd (pty_new s)) = Suc (next_ptr s)"
  "load_slot sl (snd (pty_new s)) = load_slot sl s"
  by (simp_all add: pty_new_def Let_def call_def) (cases sl; simp)

lemma irq_install_handler_more_frame [simp]:
  "hw (irq_install_handler i h d s) = hw s"
  "sem_serial_ac (irq_install_handler i h d s) = sem_serial_ac s"
  "sem_serial_bd (irq_install_handler i h d s) = sem_serial_bd s"
  "next_ptr (irq_install_handler i h d s) = next_ptr s"
  "load_slot sl (irq_install_handler i h d s) = load_slot sl s"
  by (simp_all add: irq_install_handler_def call_def)

lemma load_slot_flags [simp]:
  "load_slot sl (s\<lparr>have_installed_ac := x\<rparr>) = load_slot sl s"
  "load_slot sl (s\<lparr>have_installed_bd := x\<rparr>) = load_slot sl s"
  by (cases sl; simp)+

lemma load_slot_serial_enable [simp]:
  "load_slot sl (serial_enable io port s) = load_slot sl s"
  by (cases sl; simp)

lemma serial_device_create_mock:
  assumes "port \<in> set uart_bases" and "pty_for_port port = Inr slot"
  shows "\<exists>s'. serial_device_create mock port s = Inr (next_ptr s, s')
     \<and> hw s' = (hw s)\<lparr>ier := (ier (hw s))(port := 1), lcr := (lcr (hw s))(port := 3)\<rparr>
     \<and> load_slot slot s' = Some (next_ptr s)
     \<and> (\<forall>sl. sl \<noteq> slot \<longrightarrow> load_slot sl s' = load_slot sl s)
     \<and> sem_serial_ac s' = sem_serial_ac s \<and> sem_serial_bd s' = sem_serial_bd s
     \<and> next_ptr s' = Suc (next_ptr s)"
  unfolding serial_device_create_unfold [OF assms(2)]
  by (simp add: Let_def serial_enable_mock_hw [OF assms(1)])

lemma create_and_mount_mock:
  assumes "port \<in> set uart_bases" and "pty_for_port port = Inr slot"
  shows "\<exists>s'. create_and_mount mock port path s = Inr s'
     \<and> hw s' = (hw s)\<lparr>ier := (ier (hw s))(port := 1), lcr := (lcr (hw s))(port := 3)\<rparr>
     \<and> load_slot slot s' = Some (next_ptr s)
     \<and> (\<forall>sl. sl \<noteq> slot \<longrightarrow> load_slot sl s' = load_slot sl s)
     \<and> sem_serial_ac s' = sem_serial_ac s \<and> sem_serial_bd s' = sem_serial_bd s
     \<and> next_ptr s' = Suc (next_ptr s)"
proof -
  from serial_device_create_mock [OF assms, of s] obtain s1
    where c: "serial_device_create mock port s = Inr (next_ptr s, s1)"
      and f: "hw s1 = (hw s)\<lparr>ier := (ier (hw s))(port := 1), lcr := (lcr (hw s))(port := 3)\<rparr>"
        "load_slot slot s1 = Some (next_ptr s)"
        "\<forall>sl. sl \<noteq> slot \<longrightarrow> load_slot sl s1 = load_slot sl s"
        "sem_serial_ac s1 = sem_serial_ac s" "sem_serial_bd s1 = sem_serial_bd s"
        "next_ptr s1 = Suc (next_ptr s)"
    by blast
  have l: "load_slot sl (vfs_mount path node s1) = load_slot sl s1" for sl node
    by (cases sl; simp add: vfs_mount_def call_def)
  show ?thesis
    using f by (simp add: create_and_mount_def c l) (simp add: vfs_mount_def call_def)
qed

lemma port_bases:
  "SERIAL_PORT_A \<in> set uart_bases" "SERIAL_PORT_B \<in> set uart_bases"
  "SERIAL_PORT_C \<in> set uart_bases" "SERIAL_PORT_D \<in> set uart_bases"
  by (simp_all add: SERIAL_PORT_A_def SERIAL_PORT_B_def SERIAL_PORT_C_def SERIAL_PORT_D_def
      uart_bases_def)

lemma port_slots:
  "pty_for_port SERIAL_PORT_A = Inr Slot_a" "pty_for_port SERIAL_PORT_B = Inr Slot_b"
  "pty_for_port SERIAL_PORT_C = Inr Slot_c" "pty_for_port SERIAL_PORT_D = Inr Slot_d"
  by (simp_all add: pty_for_port_def SERIAL_PORT_A_def SERIAL_PORT_B_def SERIAL_PORT_C_def
      SERIAL_PORT_D_def)

lemma serial_initialize_mock:
  "serial_initialize mock (boot power_on) = Inr initialised
   \<and> sem_serial_ac initialised = Some 1 \<and> sem_serial_bd initialised = Some 2
   \<and> serial_port_pty_a initialised = Some 5 \<and> serial_port_pty_b initialised = Some 6
   \<and> serial_port_pty_c initialised = Some 7 \<and> serial_port_pty_d initialised = Some 8
   \<and> rx_fifo (hw initialised) = (\<lambda>_. [])
   \<and> ier (hw initialised) SERIAL_PORT_A = 1 \<and> lcr (hw initialised) SERIAL_PORT_A = 3
   \<and> ier (hw initialised) SERIAL_PORT_B = 1 \<and> lcr (hw initialised) SERIAL_PORT_B = 3"
proof -
  define s8 where "s8 =
     (boot power_on)\<lparr>trace := [List_create ''serial ac semaphore'' 1,
         List_create ''serial bd semaphore'' 2,
         Spawn_worker_thread Process_serial ''[serial ac]'' (Some 1) 3,
         Spawn_worker_thread Process_serial ''[serial bd]'' (Some 2) 4],
       sem_serial_ac := Some 1, sem_serial_bd := Some 2,
       serial_ac_handler := Some 3, serial_bd_handler := Some 4, next_ptr := 5\<rparr>"
  have init: "serial_initialize mock (boot power_on) =
      (case create_and_mount mock SERIAL_PORT_A ''/dev/ttyS0'' s8 of
           Inl f \<Rightarrow> Inl f
         | Inr s9 \<Rightarrow>
        (case create_and_mount mock SERIAL_PORT_B ''/dev/ttyS1'' s9 of
           Inl f \<Rightarrow> Inl f
         | Inr s10 \<Rightarrow>
        (case create_and_mount mock SERIAL_PORT_C ''/dev/ttyS2'' s10 of
           Inl f \<Rightarrow> Inl f
         | Inr s11 \<Rightarrow> create_and_mount mock SERIAL_PORT_D ''/dev/ttyS3'' s11)))"
    by (simp add: serial_initialize_def list_create_def spawn_worker_thread_def Let_def
        call_def boot_def s8_def eval_nat_numeral)
  have s8: "sem_serial_ac s8 = Some 1" "sem_serial_bd s8 = Some 2" "next_ptr s8 = 5"
    "hw s8 = power_on"
    by (simp_all add: s8_def boot_def)
  from create_and_mount_mock [OF port_bases(1) port_slots(1), of "''/dev/ttyS0''" s8]
  obtain s9 where s9: "create_and_mount mock SERIAL_PORT_A ''/dev/ttyS0'' s8 = Inr s9"
    "hw s9 = (hw s8)\<lparr>ier := (ier (hw s8))(SERIAL_PORT_A := 1),
                      lcr := (lcr (hw s8))(SERIAL_PORT_A := 3)\<rparr>"
    "load_slot Slot_a s9 = Some (next_ptr s8)"
    "sem_serial_ac s9 = sem_serial_ac s8" "sem_serial_bd s9 = sem_serial_bd s8"
    "next_ptr s9 = Suc (next_ptr s8)"
    by blast
  from create_and_mount_mock [OF port_bases(2) port_slots(2), of "''/dev/ttyS1''" s9]
  obtain s10 where s10: "create_and_mount mock SERIAL_PORT_B ''/dev/ttyS1'' s9 = Inr s10"
    "hw s10 = (hw s9)\<lparr>ier := (ier (hw s9))(SERIAL_PORT_B := 1),
                       lcr := (lcr (hw s9))(SERIAL_PORT_B := 3)\<rparr>"
    "load_slot Slot_b s10 = Some (next_ptr s9)"
    "\<forall>sl. sl \<noteq> Slot_b \<longrightarrow> load_slot sl s10 = load_slot sl s9"
    "sem_serial_ac s10 = sem_serial_ac s9" "sem_serial_bd s10 = sem_serial_bd s9"
    "next_ptr s10 = Suc (next_ptr s9)"
    by blast
  from create_and_mount_mock [OF port_bases(3) port_slots(3), of "''/dev/ttyS2''" s10]
  obtain s11 where s11: "create_and_mount mock SERIAL_PORT_C ''/dev/ttyS2'' s10 = Inr s11"
    "hw s11 = (hw s10)\<lparr>ier := (ier (hw s10))(SERIAL_PORT_C := 1),
                        lcr := (lcr (hw s10))(SERIAL_PORT_C := 3)\<rparr>"
    "load_slot Slot_c s11 = Some (next_ptr s10)"
    "\<forall>sl. sl \<noteq> Slot_c \<longrightarrow> load_slot sl s11 = load_slot sl s10"
    "sem_serial_ac s11 = sem_serial_ac s10" "sem_serial_bd s11 = sem_serial_bd s10"
    "next_ptr s11 = Suc (next_ptr s10)"
    by blast
  from create_and_mount_mock [OF port_bases(4) port_slots(4), of "''/dev/ttyS3''" s11]
  obtain s12 where s12: "create_and_mount mock SERIAL_PORT_D ''/dev/ttyS3'' s11 = Inr s12"
    "hw s12 = (hw s11)\<lparr>ier := (ier (hw s11))(SERIAL_PORT_D := 1),
                        lcr := (lcr (hw s11))(SERIAL_PORT_D := 3)\<rparr>"
    "load_slot Slot_d s12 = Some (next_ptr s11)"
    "\<forall>sl. sl \<noteq> Slot_d \<longrightarrow> load_slot sl s12 = load_slot sl s11"
    "sem_serial_ac s12 = sem_serial_ac s11" "sem_serial_bd s12 = sem_serial_bd s11"
    by blast
  have r: "serial_initialize mock (boot power_on) = Inr s12"
    by (simp add: init s9(1) s10(1) s11(1) s12(1))
  then have i: "initialised = s12" by (simp add: initialised_def)
  have a: "load_slot Slot_a s12 = Some 5"
    using s12(4) [rule_format, of Slot_a] s11(4) [rule_format, of Slot_a]
      s10(4) [rule_format, of Slot_a] s9(3) s8(3) by simp
  have b: "load_slot Slot_b s12 = Some 6"
    using s12(4) [rule_format, of Slot_b] s11(4) [rule_format, of Slot_b]
      s10(3) s9(6) s8(3) by simp
  have c: "load_slot Slot_c s12 = Some 7"
    using s12(4) [rule_format, of Slot_c] s11(3) s10(7) s9(6) s8(3) by simp
  have d: "load_slot Slot_d s12 = Some 8"
    using s12(3) s11(7) s10(7) s9(6) s8(3) by simp
  have h: "hw s12 = power_on\<lparr>ier := (\<lambda>_. 0)(SERIAL_PORT_A := 1, SERIAL_PORT_B := 1,
                                        SERIAL_PORT_C := 1, SERIAL_PORT_D := 1),
                             lcr := (\<lambda>_. 0)(SERIAL_PORT_A := 3, SERIAL_PORT_B := 3,
                                        SERIAL_PORT_C := 3, SERIAL_PORT_D := 3)\<rparr>"
    by (simp add: s12(2) s11(2) s10(2) s9(2) s8(4)) (simp add: power_on_def)
  have ne: "SERIAL_PORT_A \<noteq> SERIAL_PORT_B" "SERIAL_PORT_A \<noteq> SERIAL_PORT_C"
    "SERIAL_PORT_A \<noteq> SERIAL_PORT_D" "SERIAL_PORT_B \<noteq> SERIAL_PORT_C"
    "SERIAL_PORT_B \<noteq> SERIAL_PORT_D"
    by (simp_all add: SERIAL_PORT_A_def SERIAL_PORT_B_def SERIAL_PORT_C_def SERIAL_PORT_D_def)
  show ?thesis
    unfolding i using r a b c d ne
    by (simp add: h s12(5,6) s11(5,6) s10(5,6) s9(4,5) s8(1,2)) (simp add: power_on_def)
qed

lemma on_hw_frame [simp]:
  "hw (on_hw f s) = f (hw s)" "trace (on_hw f s) = trace s"
  "sem_serial_ac (on_hw f s) = sem_serial_ac s" "sem_serial_bd (on_hw f s) = sem_serial_bd s"
  "load_slot sl (on_hw f s) = load_slot sl s"
  by (simp_all add: on_hw_def)

lemma receive_frame [simp]:
  "ier (receive base b h) = ier h" "lcr (receive base b h) = lcr h"
  "rx_fifo (receive base b h) = (rx_fifo h)(base := rx_fifo h base @ [b])"
  by (simp_all add: receive_def)

lemma ports_distinct:
  "SERIAL_PORT_A \<noteq> SERIAL_PORT_B" "SERIAL_PORT_A \<noteq> SERIAL_PORT_C"
  "SERIAL_PORT_A \<noteq> SERIAL_PORT_D" "SERIAL_PORT_B \<noteq> SERIAL_PORT_C"
  "SERIAL_PORT_B \<noteq> SERIAL_PORT_D" "SERIAL_PORT_C \<noteq> SERIAL_PORT_D"
  "SERIAL_PORT_C \<noteq> SERIAL_PORT_A"
  by (simp_all add: SERIAL_PORT_A_def SERIAL_PORT_B_def SERIAL_PORT_C_def SERIAL_PORT_D_def)

lemmas init = serial_initialize_mock [THEN conjunct2]

lemma handler_ac_frame:
  "hw (snd (serial_handler_ac r s)) = hw s"
  "sem_serial_ac (snd (serial_handler_ac r s)) = sem_serial_ac s"
  "sem_serial_bd (snd (serial_handler_ac r s)) = sem_serial_bd s"
  "load_slot sl (snd (serial_handler_ac r s)) = load_slot sl s"
  "trace (snd (serial_handler_ac r s)) = trace s @ [Irq_ack 4, Wakeup_queue (sem_serial_ac s)]"
  by (simp_all add: serial_handler_ac_def irq_ack_def wakeup_queue_def Let_def call_def
      SERIAL_IRQ_AC_def)

lemma handler_bd_frame:
  "hw (snd (serial_handler_bd r s)) = hw s"
  "sem_serial_ac (snd (serial_handler_bd r s)) = sem_serial_ac s"
  "sem_serial_bd (snd (serial_handler_bd r s)) = sem_serial_bd s"
  "load_slot sl (snd (serial_handler_bd r s)) = load_slot sl s"
  by (simp_all add: serial_handler_bd_def irq_ack_def wakeup_queue_def Let_def call_def)

lemma both_pending_facts:
  "\<not> bit (lcr (hw both_pending) SERIAL_PORT_A) 7"
  "bit (ier (hw both_pending) SERIAL_PORT_A) 0"
  "rx_fifo (hw both_pending) SERIAL_PORT_A = [0x41, 0x42]"
  "rx_fifo (hw both_pending) SERIAL_PORT_C = [0x43]"
  "load_slot Slot_a both_pending = Some 5"
  "load_slot Slot_c both_pending = Some 7"
  "sem_serial_ac both_pending = Some 1"
  by (simp_all add: both_pending_def init ports_distinct)

subsection \<open>One byte at the second port of the first pair\<close>

text \<open>
  C1. The claim says that, all four ports brought up, a byte that arrives at port C
  (0x3E8, on line 4) is delivered by exactly one call of \<^verbatim>\<open>tty_input_process\<close> to the
  endpoint of port C, and that the worker then suspends again. The code does otherwise.
  After \<^verbatim>\<open>serial_initialize\<close> on the device model, with the byte 0x41 in the receive
  queue of port C, the interrupt wakes the worker; it reads the interrupt enable
  register of port A (0x3F9), finds bit 0 set, chooses port A and polls the line status
  of port A, which has no data, for ever: the iteration never ends, no byte is
  delivered and the worker never suspends again.
\<close>

theorem byte_on_port_c_never_delivered:
  "serial_initialize mock (boot power_on) = Inr initialised
   \<and> rx_fifo (hw only_c_pending) SERIAL_PORT_C = [0x41]
   \<and> interrupt_ac mock only_c_pending = None"
proof -
  let ?s1 = "snd (serial_handler_ac zero_regs only_c_pending)"
  have base: "process_serial_portBase (sem_serial_ac ?s1) ?s1 = SERIAL_PORT_A"
    by (simp add: process_serial_portBase_def)
  have l: "\<not> bit (lcr (hw ?s1) SERIAL_PORT_A) 7"
    by (simp add: handler_ac_frame only_c_pending_def init)
  have i: "bit (ier (hw ?s1) SERIAL_PORT_A) 0"
    by (simp add: handler_ac_frame only_c_pending_def init)
  have f: "rx_fifo (hw ?s1) SERIAL_PORT_A = []"
    by (simp add: handler_ac_frame only_c_pending_def init ports_distinct)
  have "process_serial_iteration mock (sem_serial_ac ?s1) SERIAL_PORT_A ?s1 = None"
    using port_bases(1) l i f by (rule process_serial_iteration_mock_idle)
  then have "interrupt_ac mock only_c_pending = None"
    by (simp add: interrupt_ac_def split_beta base)
  moreover have "rx_fifo (hw only_c_pending) SERIAL_PORT_C = [0x41]"
    by (simp add: only_c_pending_def init)
  ultimately show ?thesis using serial_initialize_mock by simp
qed

subsection \<open>Data pending at both ports of a line\<close>

lemma process_serial_iteration_port:
  "process_serial_iteration io argp portBase s =
     process_serial_loop io (process_serial_port io portBase s)
       (snd (inportb io (portBase + 1) (call (Sleep_on argp) s)))"
  by (simp add: process_serial_iteration_def process_serial_port_def Let_def split_beta
      inportb_fst)

lemma mock_in_reg1:
  assumes "base \<in> set uart_bases"
  shows "snd (mock_in h (base + 1)) = h"
proof -
  have "base = 0x3F8 \<or> base = 0x2F8 \<or> base = 0x3E8 \<or> base = 0x2E8"
    using assms by (rule uart_base_cases)
  then show ?thesis
    by (elim disjE) (simp_all add: mock_in_def Let_def uart_bases_def)
qed

lemma inportb_mock_reg1:
  assumes "base \<in> set uart_bases"
  shows "snd (inportb mock (base + 1) s) =
           s\<lparr>trace := trace s @ [Inportb (base + 1) (fst (mock_in (hw s) (base + 1)))]\<rparr>"
  using mock_in_reg1 [OF assms, of "hw s"]
  by (simp add: inportb_def split_beta call_def)

lemma both_pending_port:
  "process_serial_port mock SERIAL_PORT_A both_pending = SERIAL_PORT_A"
  using both_pending_facts(1,2)
  by (simp add: process_serial_port_def mock_in_ier [OF port_bases(1)] bit0_and_1)

text \<open>
  C5, as amended. On the device model, let the worker be woken in a state in which the
  port that it selects, the value of its variable \<^verbatim>\<open>port\<close>, is one of the four known
  ports, in normal mode, with a receive queue that holds the bytes \<open>b # bs\<close>. Then the
  iteration ends (the worker suspends again); between its \<^verbatim>\<open>sleep_on\<close> and its end the
  worker reads, apart from one register of its base port, only the line status and the
  receive register of the selected port; every byte of the queue of the selected port
  is delivered, in order, to the endpoint of that port and to no other; and afterwards
  that queue is empty and the receive queue of every other port, the other port of the
  line among them, is as it was. Which port the worker selects is no part of the
  statement: it holds of either outcome of the choice.
\<close>

theorem worker_drains_selected_port:
  assumes "portBase \<in> set uart_bases"
    and "process_serial_port mock portBase s = port"
    and "port \<in> set uart_bases" and "pty_for_port port = Inr slot"
    and "\<not> bit (lcr (hw s) port) 7"
    and "rx_fifo (hw s) port = b # bs"
  shows "\<exists>s'. process_serial_iteration mock argp portBase s = Some (Inr s')
     \<and> trace s' = trace s
          @ [Sleep_on argp, Inportb (portBase + 1) (fst (port_in mock (hw s) (portBase + 1)))]
          @ drain_events port (load_slot slot s) (b # bs)
     \<and> tty_inputs (drop (length (trace s)) (trace s')) = map (Pair (load_slot slot s)) (b # bs)
     \<and> rx_fifo (hw s') = (rx_fifo (hw s))(port := [])"
proof -
  let ?s1 = "s\<lparr>trace := trace s @ [Sleep_on argp,
                 Inportb (portBase + 1) (fst (mock_in (hw s) (portBase + 1)))]\<rparr>"
  have s1: "snd (inportb mock (portBase + 1) (call (Sleep_on argp) s)) = ?s1"
    by (simp add: inportb_mock_reg1 [OF assms(1)] call_def)
  have it: "process_serial_iteration mock argp portBase s = process_serial_loop mock port ?s1"
    by (simp only: process_serial_iteration_port assms(2) s1)
  have l: "\<not> bit (lcr (hw ?s1) port) 7" using assms(5) by simp
  have f: "rx_fifo (hw ?s1) port = b # bs" using assms(6) by simp
  show ?thesis
    unfolding it process_serial_loop_mock [OF assms(3,4) l f]
    by (simp add: tty_inputs_append tty_inputs_drain_events)
qed

theorem worker_drains_selected_port_witness:
  "SERIAL_PORT_A \<in> set uart_bases
   \<and> process_serial_port mock SERIAL_PORT_A both_pending = SERIAL_PORT_A
   \<and> pty_for_port SERIAL_PORT_A = Inr Slot_a
   \<and> \<not> bit (lcr (hw both_pending) SERIAL_PORT_A) 7
   \<and> rx_fifo (hw both_pending) SERIAL_PORT_A = [0x41, 0x42]
   \<and> rx_fifo (hw both_pending) SERIAL_PORT_C = [0x43]
   \<and> (\<exists>s'. process_serial_iteration mock (Some 1) SERIAL_PORT_A both_pending = Some (Inr s')
          \<and> tty_inputs (drop (length (trace both_pending)) (trace s'))
              = [(Some 5, 0x41), (Some 5, 0x42)]
          \<and> rx_fifo (hw s') SERIAL_PORT_A = []
          \<and> rx_fifo (hw s') SERIAL_PORT_C = [0x43])"
proof -
  from worker_drains_selected_port [OF port_bases(1) both_pending_port port_bases(1)
      port_slots(1) both_pending_facts(1,3), of "Some 1"]
  obtain s' where
    "process_serial_iteration mock (Some 1) SERIAL_PORT_A both_pending = Some (Inr s')"
    "tty_inputs (drop (length (trace both_pending)) (trace s'))
       = map (Pair (load_slot Slot_a both_pending)) [0x41, 0x42]"
    "rx_fifo (hw s') = (rx_fifo (hw both_pending))(SERIAL_PORT_A := [])"
    by blast
  then have "process_serial_iteration mock (Some 1) SERIAL_PORT_A both_pending = Some (Inr s')
      \<and> tty_inputs (drop (length (trace both_pending)) (trace s'))
              = [(Some 5, 0x41), (Some 5, 0x42)]
      \<and> rx_fifo (hw s') SERIAL_PORT_A = []
      \<and> rx_fifo (hw s') SERIAL_PORT_C = [0x43]"
    using both_pending_facts(4,5) by (simp add: ports_distinct)
  then show ?thesis
    using port_bases(1) both_pending_port port_slots(1) both_pending_facts(1,3,4) by blast
qed

text \<open>
  C5 as stated fails. With the bytes 0x41 and 0x42 pending at port A and the byte 0x43
  pending at port C, one interrupt on line 4 and the iteration it starts deliver 0x41
  and 0x42 to the endpoint of port A; the iteration ends with the queue of port A empty
  and the byte 0x43 still in the queue of port C, nothing delivered to the endpoint of
  port C.
\<close>

theorem secondary_port_not_drained_counterexample:
  "rx_fifo (hw both_pending) SERIAL_PORT_A = [0x41, 0x42]
   \<and> rx_fifo (hw both_pending) SERIAL_PORT_C = [0x43]
   \<and> map_option (map_sum id (\<lambda>s'. (tty_inputs (drop (length (trace both_pending)) (trace s')),
                                     rx_fifo (hw s') SERIAL_PORT_A, rx_fifo (hw s') SERIAL_PORT_C,
                                     serial_port_pty_a s', serial_port_pty_c s')))
       (interrupt_ac mock both_pending)
     = Some (Inr ([(Some 5, 0x41), (Some 5, 0x42)], [], [0x43], Some 5, Some 7))"
proof -
  let ?s1 = "snd (serial_handler_ac zero_regs both_pending)"
  have base: "process_serial_portBase (sem_serial_ac ?s1) ?s1 = SERIAL_PORT_A"
    by (simp add: process_serial_portBase_def)
  have l: "\<not> bit (lcr (hw ?s1) SERIAL_PORT_A) 7"
    and i: "bit (ier (hw ?s1) SERIAL_PORT_A) 0"
    and f: "rx_fifo (hw ?s1) SERIAL_PORT_A = [0x41, 0x42]"
    by (simp_all add: handler_ac_frame both_pending_facts)
  have a: "serial_port_pty_a ?s1 = Some 5" and c: "serial_port_pty_c ?s1 = Some 7"
    using handler_ac_frame(4) [of Slot_a zero_regs both_pending]
      handler_ac_frame(4) [of Slot_c zero_regs both_pending] both_pending_facts(5,6)
    by simp_all
  have fc: "rx_fifo (hw ?s1) SERIAL_PORT_C = [0x43]"
    by (simp add: handler_ac_frame both_pending_facts)
  have "interrupt_ac mock both_pending =
          process_serial_iteration mock (sem_serial_ac ?s1) SERIAL_PORT_A ?s1"
    by (simp add: interrupt_ac_def split_beta base)
  then show ?thesis
    unfolding process_serial_iteration_mock_drain [OF port_bases(1) port_slots(1) l i f]
    using a c fc both_pending_facts(3,4,5,6)
    by (simp add: handler_ac_frame tty_inputs_append tty_inputs_drain_events ports_distinct)
qed

subsection \<open>The port handed to \<^verbatim>\<open>pty_for_port\<close>\<close>

text \<open>
  C10. The claim says that \<^verbatim>\<open>pty_for_port\<close> is only ever called with one of the four
  known ports, so that \<^verbatim>\<open>__builtin_unreachable()\<close> is never executed. The code does
  otherwise: where the register at \<^verbatim>\<open>portBase + 1\<close> of the BD worker (0x2F9) reads with
  bit 0 clear, the worker computes the port 0x2F8 - 0x100 = 0x1F8, reads a byte from it
  and calls \<^verbatim>\<open>pty_for_port(0x1F8)\<close>, which matches no case of the switch.
\<close>

theorem bd_worker_reaches_unreachable:
  "ier (hw ier_b_clear) SERIAL_PORT_B = 0
   \<and> interrupt_bd mock ier_b_clear = Some (Inl Unreachable)"
proof -
  let ?s1 = "snd (serial_handler_bd zero_regs ier_b_clear)"
  have base: "process_serial_portBase (sem_serial_bd ?s1) ?s1 = SERIAL_PORT_B"
    by (simp add: process_serial_portBase_def handler_bd_frame ier_b_clear_def init)
  have l: "\<not> bit (lcr (hw ?s1) SERIAL_PORT_B) 7"
    by (simp add: handler_bd_frame ier_b_clear_def init)
  have i: "ier (hw ?s1) SERIAL_PORT_B = 0"
    by (simp add: handler_bd_frame ier_b_clear_def)
  let ?s2 = "?s1\<lparr>trace := trace ?s1 @ [Sleep_on (sem_serial_bd ?s1),
                Inportb (SERIAL_PORT_B + 1) 0]\<rparr>"
  have it: "process_serial_iteration mock (sem_serial_bd ?s1) SERIAL_PORT_B ?s1
              = process_serial_loop mock (SERIAL_PORT_B - 0x100) ?s2"
    by (simp add: process_serial_iteration_def Let_def inportb_def
        mock_in_ier [OF port_bases(2) l] i call_def)
  have p: "SERIAL_PORT_B - 0x100 = 0x1F8" by (simp add: SERIAL_PORT_B_def)
  have lsr: "mock_in h 0x1FD = (0xFF, h)" for h
    by (simp add: mock_in_def Let_def uart_bases_def)
  have rbr: "mock_in h 0x1F8 = (0xFF, h)" for h
    by (simp add: mock_in_def Let_def uart_bases_def)
  have recv: "serial_recv mock 0x1F8 ?s2
     = Some (0xFF, ?s2\<lparr>trace := trace ?s2 @ [Inportb 0x1FD 0xFF, Inportb 0x1F8 0xFF]\<rparr>)"
    by (subst serial_recv.simps) (simp add: serial_rcvd_def inportb_def lsr rbr call_def)
  have u: "pty_for_port 0x1F8 = Inl Unreachable"
    by (simp add: pty_for_port_def SERIAL_PORT_A_def SERIAL_PORT_B_def SERIAL_PORT_C_def
        SERIAL_PORT_D_def)
  have "process_serial_loop mock 0x1F8 ?s2 = Some (Inl Unreachable)"
    by (subst process_serial_loop.simps) (simp add: recv u)
  then have "interrupt_bd mock ier_b_clear = Some (Inl Unreachable)"
    by (simp add: interrupt_bd_def split_beta base it p)
  moreover have "ier (hw ier_b_clear) SERIAL_PORT_B = 0" by (simp add: ier_b_clear_def)
  ultimately show ?thesis by simp
qed

end
